theory Spec2Isabelle
  imports Complex_Main "HOL-Library.AList"
begin

section \<open>The interaction handler manager\<close>

text \<open>
  A shallow embedding of \<^verbatim>\<open>HandlerManager\<close> (the class of the handler manager source,
  \<^verbatim>\<open>src/unnamed/part_002\<close>). JavaScript numbers are read as real numbers: rounding and
  \<^verbatim>\<open>NaN\<close> are outside the model. A property that an object does not carry
  (\<^verbatim>\<open>undefined\<close>) is \<open>None\<close>.
\<close>

subsection \<open>Conflict resolution\<close>

text \<open>
  \<^verbatim>\<open>Array.prototype.indexOf\<close>: the first position of the element, or \<open>-1\<close>.
\<close>

fun indexOf :: "'a list \<Rightarrow> 'a \<Rightarrow> int" where
  "indexOf [] x = -1"
| "indexOf (y # ys) x =
     (if y = x then 0 else (let i = indexOf ys x in if i < 0 then -1 else i + 1))"

text \<open>
  \<^verbatim>\<open>_blockedByActive(activeHandlers, allowed, myName)\<close>. The object \<^verbatim>\<open>activeHandlers\<close> is
  only ever read through its keys, so it is the list of its keys in insertion order, the
  order in which \<^verbatim>\<open>for (const name in activeHandlers)\<close> visits them. \<^verbatim>\<open>allowed\<close> is \<open>None\<close>
  for a handler registered without an allow-list.
\<close>

fun blockedByActive :: "string list \<Rightarrow> string list option \<Rightarrow> string \<Rightarrow> bool" where
  "blockedByActive [] allowed myName = False"
| "blockedByActive (name # rest) allowed myName =
     (if name = myName then blockedByActive rest allowed myName
      else (case allowed of
              None \<Rightarrow> True
            | Some al \<Rightarrow> if indexOf al name < 0 then True
                        else blockedByActive rest allowed myName))"

subsection \<open>Handler results\<close>

text \<open>
  \<^verbatim>\<open>Point\<close> of \<^verbatim>\<open>@mapbox/point-geometry\<close>: a pair of coordinates with \<^verbatim>\<open>_add\<close>,
  \<^verbatim>\<open>sub\<close> and \<^verbatim>\<open>mag\<close>.
\<close>

type_synonym point = "real \<times> real"

definition add_pt :: "point \<Rightarrow> point \<Rightarrow> point" where
  "add_pt p q = (fst p + fst q, snd p + snd q)"

definition sub_pt :: "point \<Rightarrow> point \<Rightarrow> point" where
  "sub_pt p q = (fst p - fst q, snd p - snd q)"

definition mag :: "point \<Rightarrow> real" where
  "mag p = sqrt (fst p * fst p + snd p * snd p)"

text \<open>
  A DOM event, or the synthetic \<^verbatim>\<open>RenderFrameEvent\<close>: its \<^verbatim>\<open>type\<close> and its time stamp,
  which \<^verbatim>\<open>_processInputEvent\<close> asserts to be there.
\<close>

record event =
  etype :: string
  timeStamp :: "real option"

text \<open>The failure of \<^verbatim>\<open>assert(e.timeStamp !== undefined)\<close>.\<close>

datatype error = AssertionError

text \<open>A value that may be \<^verbatim>\<open>null\<close>, as \<^verbatim>\<open>around?: Point | null\<close>.\<close>

datatype 'a nullable = Null | Val 'a

text \<open>
  \<^verbatim>\<open>HandlerResult\<close>. Every property is optional. \<^verbatim>\<open>cameraAnimation\<close> is a callback on
  the map; the model keeps a name for it. Handlers build their results as object
  literals whose properties hold values: a property stored with the value
  \<^verbatim>\<open>undefined\<close> is read as a property that is not there.
\<close>

record handler_result =
  panDelta :: "point option"
  zoomDelta :: "real option"
  bearingDelta :: "real option"
  pitchDelta :: "real option"
  around :: "point nullable option"
  pinchAround :: "point nullable option"
  cameraAnimation :: "nat option"
  originalEvent :: "event option"
  needsRenderFrame :: "bool option"
  noInertia :: "bool option"

text \<open>The object literal \<^verbatim>\<open>{}\<close>, at the type of a handler result.\<close>

definition empty_result :: handler_result where
  "empty_result = \<lparr>panDelta = None, zoomDelta = None, bearingDelta = None, pitchDelta = None,
     around = None, pinchAround = None, cameraAnimation = None, originalEvent = None,
     needsRenderFrame = None, noInertia = None\<rparr>"

text \<open>
  JavaScript truthiness of an optional number (\<^verbatim>\<open>if (change.zoomDelta)\<close>) and of an
  optional boolean; the value of \<^verbatim>\<open>x || 0\<close> (a number that is falsy is \<open>0\<close> itself) and
  of \<^verbatim>\<open>p || new Point(0, 0)\<close> (a point is an object, always truthy).
\<close>

definition truthy :: "real option \<Rightarrow> bool" where
  "truthy x = (case x of None \<Rightarrow> False | Some v \<Rightarrow> v \<noteq> 0)"

definition truthy_flag :: "bool option \<Rightarrow> bool" where
  "truthy_flag x = (case x of None \<Rightarrow> False | Some b \<Rightarrow> b)"

definition or_zero :: "real option \<Rightarrow> real" where
  "or_zero x = (case x of None \<Rightarrow> 0 | Some v \<Rightarrow> v)"

definition or_origin :: "point option \<Rightarrow> point" where
  "or_origin x = (case x of None \<Rightarrow> (0, 0) | Some p \<Rightarrow> p)"

text \<open>
  \<^verbatim>\<open>hasChange(result)\<close>:
  \<^verbatim>\<open>(result.panDelta && result.panDelta.mag()) || result.zoomDelta || result.bearingDelta || result.pitchDelta\<close>,
  read as a condition.
\<close>

definition hasChange :: "handler_result \<Rightarrow> bool" where
  "hasChange result =
     ((case panDelta result of None \<Rightarrow> False | Some p \<Rightarrow> mag p \<noteq> 0)
      \<or> truthy (zoomDelta result) \<or> truthy (bearingDelta result) \<or> truthy (pitchDelta result))"

subsection \<open>Events in progress\<close>

text \<open>
  The keys of an events-in-progress object: \<^verbatim>\<open>zoom\<close>, \<^verbatim>\<open>drag\<close>, \<^verbatim>\<open>pitch\<close> and
  \<^verbatim>\<open>rotate\<close> are the only ones \<^verbatim>\<open>mergeHandlerResult\<close> writes.
\<close>

datatype category = Zoom | Drag | Pitch | Rotate

fun category_name :: "category \<Rightarrow> string" where
  "category_name Zoom = ''zoom''"
| "category_name Drag = ''drag''"
| "category_name Pitch = ''pitch''"
| "category_name Rotate = ''rotate''"

text \<open>The \<^verbatim>\<open>eventData\<close> literal \<^verbatim>\<open>{handlerName: name, originalEvent: ...}\<close>.\<close>

record event_data =
  handlerName :: string
  origEvent :: "event option"

text \<open>
  An object used as a dictionary is an association list in insertion order, the order of
  \<^verbatim>\<open>for ... in\<close>: \<open>AList.update\<close> overwrites a key in place and appends a new one,
  \<open>AList.delete\<close> is \<^verbatim>\<open>delete\<close>, \<open>map_of\<close> reads a key.
\<close>

type_synonym events_in_progress = "(category \<times> event_data) list"

text \<open>
  \<^verbatim>\<open>deactivatedHandlers\<close>: handler name to the input event that deactivated it, which is
  \<^verbatim>\<open>undefined\<close> (\<open>None\<close>) on a render frame.
\<close>

type_synonym deactivated_handlers = "(string \<times> event option) list"

text \<open>
  Modelled from the spec: \<^verbatim>\<open>extend\<close> of \<^verbatim>\<open>../util/util\<close> is not among the sources. It
  "shallow-overwrites \<^verbatim>\<open>into\<close>'s fields with \<^verbatim>\<open>from\<close>'s fields": every property that
  \<^verbatim>\<open>from\<close> carries replaces the property of \<^verbatim>\<open>into\<close>, the others stay.
  \<open>extend_result\<close> is the function at handler results, \<open>extend_obj\<close> the one at
  dictionaries.
\<close>

definition overwrite :: "'a option \<Rightarrow> 'a option \<Rightarrow> 'a option" where
  "overwrite old new = (case new of None \<Rightarrow> old | Some v \<Rightarrow> Some v)"

definition extend_result :: "handler_result \<Rightarrow> handler_result \<Rightarrow> handler_result" where
  "extend_result into from =
     \<lparr>panDelta = overwrite (panDelta into) (panDelta from),
      zoomDelta = overwrite (zoomDelta into) (zoomDelta from),
      bearingDelta = overwrite (bearingDelta into) (bearingDelta from),
      pitchDelta = overwrite (pitchDelta into) (pitchDelta from),
      around = overwrite (around into) (around from),
      pinchAround = overwrite (pinchAround into) (pinchAround from),
      cameraAnimation = overwrite (cameraAnimation into) (cameraAnimation from),
      originalEvent = overwrite (originalEvent into) (originalEvent from),
      needsRenderFrame = overwrite (needsRenderFrame into) (needsRenderFrame from),
      noInertia = overwrite (noInertia into) (noInertia from)\<rparr>"

fun extend_obj :: "('k \<times> 'v) list \<Rightarrow> ('k \<times> 'v) list \<Rightarrow> ('k \<times> 'v) list" where
  "extend_obj dest [] = dest"
| "extend_obj dest ((k, v) # src) = extend_obj (AList.update k v dest) src"

subsection \<open>Merging the results of one dispatch\<close>

text \<open>
  \<^verbatim>\<open>mergeHandlerResult(mergedHandlerResult, eventsInProgress, handlerResult, name, e)\<close>.
  The two objects it mutates are returned. \<^verbatim>\<open>handlerResult\<close> is \<open>None\<close> when the handler
  returned nothing; \<^verbatim>\<open>e\<close> is \<open>None\<close> on a render frame.
\<close>

definition mergeHandlerResult ::
  "handler_result \<Rightarrow> events_in_progress \<Rightarrow> handler_result option \<Rightarrow> string \<Rightarrow> event option
     \<Rightarrow> handler_result \<times> events_in_progress" where
  "mergeHandlerResult mergedHandlerResult eventsInProgress handlerResult name e =
     (case handlerResult of
        None \<Rightarrow> (mergedHandlerResult, eventsInProgress)
      | Some r \<Rightarrow>
          (let merged = extend_result mergedHandlerResult r;
               eventData = \<lparr>handlerName = name,
                            origEvent = (case originalEvent r of Some ev \<Rightarrow> Some ev | None \<Rightarrow> e)\<rparr>;
               eip1 = (if zoomDelta r \<noteq> None then AList.update Zoom eventData eventsInProgress
                       else eventsInProgress);
               eip2 = (if panDelta r \<noteq> None then AList.update Drag eventData eip1 else eip1);
               eip3 = (if pitchDelta r \<noteq> None then AList.update Pitch eventData eip2 else eip2);
               eip4 = (if bearingDelta r \<noteq> None then AList.update Rotate eventData eip3 else eip3)
           in (merged, eip4)))"

subsection \<open>Combining the queued changes\<close>

text \<open>
  A queued change \<^verbatim>\<open>[mergedHandlerResult, eventsInProgress, deactivatedHandlers]\<close>, and
  one turn of the loop of \<^verbatim>\<open>_applyChanges\<close> on the three accumulators.
\<close>

type_synonym change = "handler_result \<times> events_in_progress \<times> deactivated_handlers"

definition combine_result :: "handler_result \<Rightarrow> handler_result \<Rightarrow> handler_result" where
  "combine_result combined change =
     (let c1 = (case panDelta change of
                  None \<Rightarrow> combined
                | Some d \<Rightarrow> combined\<lparr>panDelta := Some (add_pt (or_origin (panDelta combined)) d)\<rparr>);
          c2 = (case zoomDelta change of
                  None \<Rightarrow> c1
                | Some z \<Rightarrow> if z \<noteq> 0 then c1\<lparr>zoomDelta := Some (or_zero (zoomDelta c1) + z)\<rparr> else c1);
          c3 = (case bearingDelta change of
                  None \<Rightarrow> c2
                | Some b \<Rightarrow> if b \<noteq> 0 then c2\<lparr>bearingDelta := Some (or_zero (bearingDelta c2) + b)\<rparr> else c2);
          c4 = (case pitchDelta change of
                  None \<Rightarrow> c3
                | Some p \<Rightarrow> if p \<noteq> 0 then c3\<lparr>pitchDelta := Some (or_zero (pitchDelta c3) + p)\<rparr> else c3);
          c5 = (if around change \<noteq> None then c4\<lparr>around := around change\<rparr> else c4);
          c6 = (if pinchAround change \<noteq> None then c5\<lparr>pinchAround := pinchAround change\<rparr> else c5);
          c7 = (if truthy_flag (noInertia change) then c6\<lparr>noInertia := noInertia change\<rparr> else c6)
      in c7)"

fun combine_changes :: "change \<Rightarrow> change list \<Rightarrow> change" where
  "combine_changes acc [] = acc"
| "combine_changes (combined, combinedEventsInProgress, combinedDeactivatedHandlers)
       ((change, eventsInProgress, deactivatedHandlers) # rest) =
     combine_changes
       (combine_result combined change,
        extend_obj combinedEventsInProgress eventsInProgress,
        extend_obj combinedDeactivatedHandlers deactivatedHandlers) rest"

text \<open>The combined result that \<^verbatim>\<open>_applyChanges\<close> hands to \<^verbatim>\<open>_updateMapTransform\<close>.\<close>

definition combined_of :: "change list \<Rightarrow> handler_result" where
  "combined_of cs = fst (combine_changes (empty_result, [], []) cs)"

subsection \<open>Collaborators\<close>

text \<open>
  The handlers (\<^verbatim>\<open>interface Handler\<close>) are objects of classes that are not among the
  sources. A handler is a state of type \<open>'h\<close>; its methods are parameters of the model.
  \<open>handle H name e h\<close> is \<open>None\<close> when the handler has no method of that name
  (\<^verbatim>\<open>handler[eventName || e.type]\<close> is falsy), and otherwise the value the method returns on
  the event (with the pointer positions the DOM helper reads off the event) together
  with the state it leaves the handler in.
\<close>

record 'h handler_ops =
  isEnabled :: "'h \<Rightarrow> bool"
  isActive :: "'h \<Rightarrow> bool"
  reset :: "'h \<Rightarrow> 'h"
  handle :: "string \<Rightarrow> event \<Rightarrow> 'h \<Rightarrow> (handler_result option \<times> 'h) option"

text \<open>
  The transform (\<^verbatim>\<open>map.transform\<close>) is not among the sources either: its getters,
  setters and the two primitives \<^verbatim>\<open>pointLocation\<close> and \<^verbatim>\<open>setLocationAtPoint\<close> are
  parameters. \<^verbatim>\<open>tr.zoom += z\<close> is \<open>setZoom T (getZoom T tr + z) tr\<close>; the setter may clamp.
\<close>

record ('tr, 'loc) transform_ops =
  centerPoint :: "'tr \<Rightarrow> point"
  pointLocation :: "'tr \<Rightarrow> point \<Rightarrow> 'loc"
  setLocationAtPoint :: "'loc \<Rightarrow> point \<Rightarrow> 'tr \<Rightarrow> 'tr"
  getBearing :: "'tr \<Rightarrow> real"
  setBearing :: "real \<Rightarrow> 'tr \<Rightarrow> 'tr"
  getPitch :: "'tr \<Rightarrow> real"
  setPitch :: "real \<Rightarrow> 'tr \<Rightarrow> 'tr"
  getZoom :: "'tr \<Rightarrow> real"
  setZoom :: "real \<Rightarrow> 'tr \<Rightarrow> 'tr"

text \<open>
  The ease target that \<^verbatim>\<open>HandlerInertia._onMoveEnd\<close> returns: its \<^verbatim>\<open>bearing\<close>, the only
  property the manager reads and writes, and a name for the rest of the object.
\<close>

record ease_options =
  bearing :: "real option"
  easing :: nat

text \<open>
  The inertia tracker (\<^verbatim>\<open>HandlerInertia\<close>, not among the sources) is a state of type
  \<open>'i\<close> with its three methods as parameters: \<^verbatim>\<open>clear()\<close>, \<^verbatim>\<open>record(settings)\<close> and
  \<^verbatim>\<open>_onMoveEnd(options)\<close>, which returns an ease target or \<^verbatim>\<open>undefined\<close>.
\<close>

record 'i inertia_ops =
  clear :: "'i \<Rightarrow> 'i"
  record_settings :: "handler_result \<Rightarrow> 'i \<Rightarrow> 'i"
  onMoveEnd :: "'i \<Rightarrow> ease_options option \<times> 'i"

text \<open>
  What the manager asks of the map, in the order it asks: \<^verbatim>\<open>fire(new Event(type, ...))\<close>
  with the original event, \<^verbatim>\<open>_stop(true)\<close>, \<^verbatim>\<open>_update()\<close>, \<^verbatim>\<open>easeTo\<close>, \<^verbatim>\<open>resetNorth()\<close>,
  \<^verbatim>\<open>_requestRenderFrame\<close> and the call of a handler's \<^verbatim>\<open>cameraAnimation\<close>.
\<close>

datatype map_call =
  Fire string "event option"
| StopAnimation
| Update
| EaseTo ease_options "event option"
| ResetNorth
| RequestRenderFrame nat
| CameraAnimation nat

subsection \<open>The manager\<close>

text \<open>
  The fields of \<^verbatim>\<open>HandlerManager\<close>. A handler object is shared between \<^verbatim>\<open>_handlers\<close> and
  \<^verbatim>\<open>_handlersById\<close>: the model keeps the handlers in a store addressed by the name under
  which \<^verbatim>\<open>_add\<close> files them, \<open>handlersById\<close>, and \<open>handlers\<close> lists the registrations
  \<^verbatim>\<open>{handlerName, allowed}\<close> in order. The declaration \<^verbatim>\<open>{ [string]: Handler }\<close> makes
  every lookup yield a handler, and so does the store. \<open>transform\<close> is \<^verbatim>\<open>map.transform\<close>,
  \<open>calls\<close> the calls made to the map so far, oldest first.

  Modelled from the spec: \<^verbatim>\<open>map._requestRenderFrame\<close> is not among the sources. The host's
  "request-next-frame(callback)" queues the callback and returns a token:
  \<open>frameRequests\<close> holds the tokens of the callbacks the map has still to call, and
  \<open>nextFrameId\<close> is the next token.
\<close>

record ('h, 'tr, 'i) manager =
  handlers :: "(string \<times> string list option) list"
  handlersById :: "string \<Rightarrow> 'h"
  eventsInProgress :: events_in_progress
  frameId :: "nat option"
  inertia :: 'i
  bearingSnap :: real
  updatingCamera :: bool
  changes :: "change list"
  previousActiveHandlers :: "string list"
  bearingChanged :: bool
  transform :: 'tr
  calls :: "map_call list"
  frameRequests :: "nat list"
  nextFrameId :: nat

text \<open>
  The registrations that \<^verbatim>\<open>_addDefaultHandlers\<close> makes through \<^verbatim>\<open>_add\<close>, in order.
\<close>

definition defaultHandlers :: "(string \<times> string list option) list" where
  "defaultHandlers =
     [(''mapEvent'', None),
      (''boxZoom'', None),
      (''tapZoom'', None),
      (''clickZoom'', None),
      (''tapDragZoom'', None),
      (''touchPitch'', None),
      (''mouseRotate'', Some [''mousePitch'']),
      (''mousePitch'', Some [''mouseRotate'']),
      (''mousePan'', None),
      (''touchPan'', Some [''touchZoom'', ''touchRotate'']),
      (''touchRotate'', Some [''touchPan'', ''touchZoom'']),
      (''touchZoom'', Some [''touchPan'', ''touchRotate'']),
      (''scrollZoom'', Some [''mousePan'']),
      (''keyboard'', None),
      (''blockableMapEvent'', None)]"

text \<open>The calls that a step makes to the map are appended to the record of calls.\<close>

definition map_calls :: "map_call list \<Rightarrow> ('h, 'tr, 'i) manager \<Rightarrow> ('h, 'tr, 'i) manager" where
  "map_calls cs st = st\<lparr>calls := calls st @ cs\<rparr>"

text \<open>\<^verbatim>\<open>_fireEvent(type, e)\<close>.\<close>

definition fireEvent :: "string \<Rightarrow> event option \<Rightarrow> ('h, 'tr, 'i) manager \<Rightarrow> ('h, 'tr, 'i) manager" where
  "fireEvent name e st = map_calls [Fire name e] st"

text \<open>
  \<^verbatim>\<open>isMoving(p)\<close>, \<^verbatim>\<open>p.zoom || p.drag || p.pitch || p.rotate\<close>: the first of the four
  entries that is there.
\<close>

definition isMoving :: "events_in_progress \<Rightarrow> event_data option" where
  "isMoving p =
     (case map_of p Zoom of Some d \<Rightarrow> Some d | None \<Rightarrow>
      (case map_of p Drag of Some d \<Rightarrow> Some d | None \<Rightarrow>
       (case map_of p Pitch of Some d \<Rightarrow> Some d | None \<Rightarrow> map_of p Rotate)))"

text \<open>
  \<^verbatim>\<open>_triggerRenderFrame()\<close>. The callback it hands to the map is \<open>renderFrameCallback\<close>
  below.
\<close>

definition triggerRenderFrame :: "('h, 'tr, 'i) manager \<Rightarrow> ('h, 'tr, 'i) manager" where
  "triggerRenderFrame st =
     (if frameId st = None then
        map_calls [RequestRenderFrame (nextFrameId st)]
          (st\<lparr>frameId := Some (nextFrameId st),
              frameRequests := frameRequests st @ [nextFrameId st],
              nextFrameId := Suc (nextFrameId st)\<rparr>)
      else st)"

subsection \<open>Lifecycle events\<close>

text \<open>
  The first loop of \<^verbatim>\<open>_fireEvents\<close>, over the entries of \<^verbatim>\<open>newEventsInProgress\<close>: file
  the entry and fire \<^verbatim>\<open>`${eventName}start`\<close> when the category was not in progress.
\<close>

fun startLoop :: "events_in_progress \<Rightarrow> ('h, 'tr, 'i) manager \<Rightarrow> ('h, 'tr, 'i) manager" where
  "startLoop [] st = st"
| "startLoop ((eventName, d) # rest) st =
     (let isStart = (map_of (eventsInProgress st) eventName = None);
          st1 = st\<lparr>eventsInProgress := AList.update eventName d (eventsInProgress st)\<rparr>
      in startLoop rest
           (if isStart then fireEvent (category_name eventName @ ''start'') (origEvent d) st1
            else st1))"

text \<open>The second loop: fire \<^verbatim>\<open>eventName\<close> for every entry of \<^verbatim>\<open>newEventsInProgress\<close>.\<close>

fun changeLoop :: "events_in_progress \<Rightarrow> ('h, 'tr, 'i) manager \<Rightarrow> ('h, 'tr, 'i) manager" where
  "changeLoop [] st = st"
| "changeLoop ((eventName, d) # rest) st =
     changeLoop rest (fireEvent (category_name eventName) (origEvent d) st)"

text \<open>
  The third loop, over the entries that \<^verbatim>\<open>this._eventsInProgress\<close> has when the loop
  starts: an entry whose handler is not active is deleted and \<^verbatim>\<open>`${eventName}end`\<close> is
  fired with \<^verbatim>\<open>deactivatedHandlers[handlerName] || originalEvent\<close>. The loop returns
  \<^verbatim>\<open>originalEndEvent\<close> with the state.
\<close>

fun endLoop ::
  "'h handler_ops \<Rightarrow> events_in_progress \<Rightarrow> deactivated_handlers \<Rightarrow> event option
     \<Rightarrow> ('h, 'tr, 'i) manager \<Rightarrow> event option \<times> ('h, 'tr, 'i) manager" where
  "endLoop H [] deactivatedHandlers originalEndEvent st = (originalEndEvent, st)"
| "endLoop H ((eventName, d) # rest) deactivatedHandlers originalEndEvent st =
     (if \<not> isActive H (handlersById st (handlerName d)) then
        (let st1 = st\<lparr>eventsInProgress := AList.delete eventName (eventsInProgress st)\<rparr>;
             endEvent = (case map_of deactivatedHandlers (handlerName d) of
                           Some (Some ev) \<Rightarrow> Some ev
                         | _ \<Rightarrow> origEvent d)
         in endLoop H rest deactivatedHandlers endEvent
              (fireEvent (category_name eventName @ ''end'') endEvent st1))
      else endLoop H rest deactivatedHandlers originalEndEvent st)"

text \<open>\<^verbatim>\<open>shouldSnapToNorth\<close>, with \<^verbatim>\<open>this._bearingSnap\<close> as its first argument.\<close>

definition shouldSnapToNorth :: "real \<Rightarrow> real \<Rightarrow> bool" where
  "shouldSnapToNorth snap b = (b \<noteq> 0 \<and> - snap < b \<and> b < snap)"

text \<open>
  The snap of the inertial ease:
  \<^verbatim>\<open>if (shouldSnapToNorth(inertialEase.bearing || this._map.getBearing())) inertialEase.bearing = 0\<close>,
  with \<^verbatim>\<open>this._bearingSnap\<close> and \<^verbatim>\<open>this._map.getBearing()\<close> as arguments.
\<close>

definition snapInertialEase :: "real \<Rightarrow> real \<Rightarrow> ease_options \<Rightarrow> ease_options" where
  "snapInertialEase snap mapBearing inertialEase =
     (if shouldSnapToNorth snap
           (if truthy (bearing inertialEase) then or_zero (bearing inertialEase) else mapBearing)
      then inertialEase\<lparr>bearing := Some 0\<rparr> else inertialEase)"

text \<open>
  The body of \<^verbatim>\<open>if ((wasMoving || nowMoving) && !stillMoving)\<close>, the end of a gesture.
\<close>

definition gestureEnd ::
  "'i inertia_ops \<Rightarrow> ('tr, 'loc) transform_ops \<Rightarrow> event option
     \<Rightarrow> ('h, 'tr, 'i) manager \<Rightarrow> ('h, 'tr, 'i) manager" where
  "gestureEnd I T originalEndEvent st =
     (let st1 = st\<lparr>updatingCamera := True\<rparr>;
          inertialEase = fst (onMoveEnd I (inertia st1));
          st2 = st1\<lparr>inertia := snd (onMoveEnd I (inertia st1))\<rparr>;
          st3 = (case inertialEase of
                   Some ease \<Rightarrow>
                     map_calls
                       [EaseTo (snapInertialEase (bearingSnap st2) (getBearing T (transform st2)) ease)
                          originalEndEvent] st2
                 | None \<Rightarrow>
                     map_calls
                       (Fire ''moveend'' originalEndEvent #
                        (if shouldSnapToNorth (bearingSnap st2) (getBearing T (transform st2))
                         then [ResetNorth] else [])) st2)
      in st3\<lparr>bearingChanged := False, updatingCamera := False\<rparr>)"

text \<open>\<^verbatim>\<open>_fireEvents(newEventsInProgress, deactivatedHandlers)\<close>.\<close>

definition fireEvents ::
  "'h handler_ops \<Rightarrow> 'i inertia_ops \<Rightarrow> ('tr, 'loc) transform_ops \<Rightarrow> events_in_progress
     \<Rightarrow> deactivated_handlers \<Rightarrow> ('h, 'tr, 'i) manager \<Rightarrow> ('h, 'tr, 'i) manager" where
  "fireEvents H I T newEventsInProgress deactivatedHandlers st =
     (let wasMoving = isMoving (eventsInProgress st);
          nowMoving = isMoving newEventsInProgress;
          st1 = (case nowMoving of
                   Some d \<Rightarrow> if wasMoving = None then fireEvent ''movestart'' (origEvent d) st else st
                 | None \<Rightarrow> st);
          st2 = startLoop newEventsInProgress st1;
          st3 = (if map_of newEventsInProgress Rotate \<noteq> None then st2\<lparr>bearingChanged := True\<rparr>
                 else st2);
          st4 = (case nowMoving of Some d \<Rightarrow> fireEvent ''move'' (origEvent d) st3 | None \<Rightarrow> st3);
          st5 = changeLoop newEventsInProgress st4;
          ended = endLoop H (eventsInProgress st5) deactivatedHandlers None st5;
          stillMoving = isMoving (eventsInProgress (snd ended))
      in if (wasMoving \<noteq> None \<or> nowMoving \<noteq> None) \<and> stillMoving = None
         then gestureEnd I T (fst ended) (snd ended)
         else snd ended)"

subsection \<open>Applying the queued changes\<close>

text \<open>
  The anchor of an update: \<^verbatim>\<open>pinchAround\<close> replaces \<^verbatim>\<open>around\<close> when it is not
  \<^verbatim>\<open>undefined\<close>, and \<^verbatim>\<open>around || map.transform.centerPoint\<close> takes the centre when the
  result is \<^verbatim>\<open>null\<close> or \<^verbatim>\<open>undefined\<close>.
\<close>

definition anchor :: "('tr, 'loc) transform_ops \<Rightarrow> handler_result \<Rightarrow> 'tr \<Rightarrow> point" where
  "anchor T combinedResult tr =
     (case (if pinchAround combinedResult \<noteq> None then pinchAround combinedResult
            else around combinedResult) of
        Some (Val p) \<Rightarrow> p
      | _ \<Rightarrow> centerPoint T tr)"

text \<open>
  The lines of \<^verbatim>\<open>_updateMapTransform\<close> that work on the transform, from
  \<^verbatim>\<open>around = around || map.transform.centerPoint\<close> to \<^verbatim>\<open>tr.setLocationAtPoint(loc, around)\<close>.
\<close>

definition moveTransform :: "('tr, 'loc) transform_ops \<Rightarrow> handler_result \<Rightarrow> 'tr \<Rightarrow> 'tr" where
  "moveTransform T combinedResult tr =
     (let anchorPoint = anchor T combinedResult tr;
          loc = pointLocation T tr
                  (case panDelta combinedResult of Some d \<Rightarrow> sub_pt anchorPoint d | None \<Rightarrow> anchorPoint);
          tr1 = (case bearingDelta combinedResult of
                   Some b \<Rightarrow> if b \<noteq> 0 then setBearing T (getBearing T tr + b) tr else tr
                 | None \<Rightarrow> tr);
          tr2 = (case pitchDelta combinedResult of
                   Some p \<Rightarrow> if p \<noteq> 0 then setPitch T (getPitch T tr1 + p) tr1 else tr1
                 | None \<Rightarrow> tr1);
          tr3 = (case zoomDelta combinedResult of
                   Some z \<Rightarrow> if z \<noteq> 0 then setZoom T (getZoom T tr2 + z) tr2 else tr2
                 | None \<Rightarrow> tr2)
      in setLocationAtPoint T loc anchorPoint tr3)"

text \<open>\<^verbatim>\<open>_updateMapTransform(combinedResult, combinedEventsInProgress, deactivatedHandlers)\<close>.\<close>

definition updateMapTransform ::
  "'h handler_ops \<Rightarrow> 'i inertia_ops \<Rightarrow> ('tr, 'loc) transform_ops \<Rightarrow> handler_result
     \<Rightarrow> events_in_progress \<Rightarrow> deactivated_handlers
     \<Rightarrow> ('h, 'tr, 'i) manager \<Rightarrow> ('h, 'tr, 'i) manager" where
  "updateMapTransform H I T combinedResult combinedEventsInProgress deactivatedHandlers st =
     (if \<not> hasChange combinedResult
      then fireEvents H I T combinedEventsInProgress deactivatedHandlers st
      else
        (let st1 = map_calls [StopAnimation] st;
             st2 = st1\<lparr>transform := moveTransform T combinedResult (transform st1)\<rparr>;
             st3 = map_calls [Update] st2;
             st4 = (if \<not> truthy_flag (noInertia combinedResult)
                    then st3\<lparr>inertia := record_settings I combinedResult (inertia st3)\<rparr>
                    else st3)
         in fireEvents H I T combinedEventsInProgress deactivatedHandlers st4))"

text \<open>\<^verbatim>\<open>_applyChanges()\<close>, the flush.\<close>

definition applyChanges ::
  "'h handler_ops \<Rightarrow> 'i inertia_ops \<Rightarrow> ('tr, 'loc) transform_ops
     \<Rightarrow> ('h, 'tr, 'i) manager \<Rightarrow> ('h, 'tr, 'i) manager" where
  "applyChanges H I T st =
     (let acc = combine_changes (empty_result, [], []) (changes st);
          st1 = updateMapTransform H I T (fst acc) (fst (snd acc)) (snd (snd acc)) st
      in st1\<lparr>changes := []\<rparr>)"

subsection \<open>Stopping\<close>

text \<open>The loop \<^verbatim>\<open>for (const {handler} of this._handlers) handler.reset()\<close>.\<close>

fun resetAll ::
  "'h handler_ops \<Rightarrow> (string \<times> string list option) list
     \<Rightarrow> ('h, 'tr, 'i) manager \<Rightarrow> ('h, 'tr, 'i) manager" where
  "resetAll H [] st = st"
| "resetAll H ((hname, allowed) # rest) st =
     resetAll H rest
       (st\<lparr>handlersById := (handlersById st)(hname := reset H (handlersById st hname))\<rparr>)"

text \<open>\<^verbatim>\<open>stop()\<close>.\<close>

definition stop ::
  "'h handler_ops \<Rightarrow> 'i inertia_ops \<Rightarrow> ('tr, 'loc) transform_ops
     \<Rightarrow> ('h, 'tr, 'i) manager \<Rightarrow> ('h, 'tr, 'i) manager" where
  "stop H I T st =
     (if updatingCamera st then st
      else
        (let st1 = resetAll H (handlers st) st;
             st2 = st1\<lparr>inertia := clear I (inertia st1)\<rparr>;
             st3 = fireEvents H I T [] [] st2
         in st3\<lparr>changes := []\<rparr>))"

subsection \<open>Dispatching an input event\<close>

text \<open>\<^verbatim>\<open>activeHandlers[handlerName] = handler\<close> on the list of keys.\<close>

definition add_key :: "string \<Rightarrow> string list \<Rightarrow> string list" where
  "add_key k ks = (if k \<in> set ks then ks else ks @ [k])"

text \<open>
  One turn of the loop over \<^verbatim>\<open>this._handlers\<close> in \<^verbatim>\<open>_processInputEvent\<close>. The loop
  carries \<^verbatim>\<open>mergedHandlerResult\<close>, \<^verbatim>\<open>eventsInProgress\<close> and \<^verbatim>\<open>activeHandlers\<close> along
  with the manager. \<open>invoke\<close> is the \<^verbatim>\<open>if (this._blockedByActive(...)) ... else ...\<close> of
  the body and returns \<^verbatim>\<open>data\<close> first; \<open>methodName\<close> is \<^verbatim>\<open>eventName || e.type\<close>.
\<close>

type_synonym ('h, 'tr, 'i) dispatch =
  "handler_result \<times> events_in_progress \<times> string list \<times> ('h, 'tr, 'i) manager"

definition methodName :: "event \<Rightarrow> string option \<Rightarrow> string" where
  "methodName e eventName =
     (case eventName of None \<Rightarrow> etype e | Some n \<Rightarrow> if n = [] then etype e else n)"

definition invoke ::
  "'h handler_ops \<Rightarrow> event \<Rightarrow> string option \<Rightarrow> event option \<Rightarrow> string \<Rightarrow> string list option
     \<Rightarrow> ('h, 'tr, 'i) dispatch \<Rightarrow> handler_result option \<times> ('h, 'tr, 'i) dispatch" where
  "invoke H e eventName inputEvent hname allowed acc =
     (case acc of (mergedHandlerResult, inProgress, activeHandlers, st) \<Rightarrow>
        if blockedByActive activeHandlers allowed hname then
          (None, mergedHandlerResult, inProgress, activeHandlers,
           st\<lparr>handlersById :=
                (handlersById st)(hname := reset H (handlersById st hname))\<rparr>)
        else
          (case handle H (methodName e eventName) e (handlersById st hname) of
             None \<Rightarrow> (None, acc)
           | Some (data, handler) \<Rightarrow>
               (let st1 = st\<lparr>handlersById := (handlersById st)(hname := handler)\<rparr>;
                    merged = mergeHandlerResult mergedHandlerResult inProgress data
                               hname inputEvent;
                    st2 = (case data of
                             Some r \<Rightarrow> if truthy_flag (needsRenderFrame r)
                                       then triggerRenderFrame st1 else st1
                           | None \<Rightarrow> st1)
                in (data, fst merged, snd merged, activeHandlers, st2))))"

definition dispatchTo ::
  "'h handler_ops \<Rightarrow> event \<Rightarrow> string option \<Rightarrow> event option \<Rightarrow> string \<times> string list option
     \<Rightarrow> ('h, 'tr, 'i) dispatch \<Rightarrow> ('h, 'tr, 'i) dispatch" where
  "dispatchTo H e eventName inputEvent registration acc =
     (case registration of (hname, allowed) \<Rightarrow>
      (case acc of (mergedHandlerResult, inProgress, activeHandlers, st) \<Rightarrow>
        if \<not> isEnabled H (handlersById st hname) then acc
        else
          (case invoke H e eventName inputEvent hname allowed acc of
             (data, merged, inProgress1, active, st1) \<Rightarrow>
               if data \<noteq> None \<or> isActive H (handlersById st1 hname)
               then (merged, inProgress1, add_key hname active, st1)
               else (merged, inProgress1, active, st1))))"

fun dispatchLoop ::
  "'h handler_ops \<Rightarrow> event \<Rightarrow> string option \<Rightarrow> event option \<Rightarrow> (string \<times> string list option) list
     \<Rightarrow> ('h, 'tr, 'i) dispatch \<Rightarrow> ('h, 'tr, 'i) dispatch" where
  "dispatchLoop H e eventName inputEvent [] acc = acc"
| "dispatchLoop H e eventName inputEvent (registration # rest) acc =
     dispatchLoop H e eventName inputEvent rest
       (dispatchTo H e eventName inputEvent registration acc)"

text \<open>
  The loop over \<^verbatim>\<open>this._previousActiveHandlers\<close> that fills \<^verbatim>\<open>deactivatedHandlers\<close>.
\<close>

fun deactivatedLoop ::
  "string list \<Rightarrow> string list \<Rightarrow> event option \<Rightarrow> deactivated_handlers \<Rightarrow> deactivated_handlers" where
  "deactivatedLoop [] activeHandlers inputEvent deactivatedHandlers = deactivatedHandlers"
| "deactivatedLoop (name # rest) activeHandlers inputEvent deactivatedHandlers =
     deactivatedLoop rest activeHandlers inputEvent
       (if name \<notin> set activeHandlers then AList.update name inputEvent deactivatedHandlers
        else deactivatedHandlers)"

text \<open>
  The tail of \<^verbatim>\<open>_processInputEvent\<close>, from \<^verbatim>\<open>const deactivatedHandlers = {}\<close> on.
\<close>

definition afterDispatch ::
  "'h handler_ops \<Rightarrow> 'i inertia_ops \<Rightarrow> ('tr, 'loc) transform_ops \<Rightarrow> event option
     \<Rightarrow> ('h, 'tr, 'i) dispatch \<Rightarrow> ('h, 'tr, 'i) manager" where
  "afterDispatch H I T inputEvent acc =
     (case acc of (mergedHandlerResult, inProgress, activeHandlers, st) \<Rightarrow>
       (let deactivatedHandlers =
              deactivatedLoop (previousActiveHandlers st) activeHandlers inputEvent [];
            st1 = st\<lparr>previousActiveHandlers := activeHandlers\<rparr>;
            st2 = (if deactivatedHandlers \<noteq> [] \<or> hasChange mergedHandlerResult
                   then triggerRenderFrame
                          (st1\<lparr>changes := changes st1 @
                                 [(mergedHandlerResult, inProgress, deactivatedHandlers)]\<rparr>)
                   else st1);
            st3 = (if activeHandlers \<noteq> [] \<or> hasChange mergedHandlerResult
                   then map_calls [StopAnimation] st2 else st2);
            st4 = st3\<lparr>updatingCamera := False\<rparr>
        in case cameraAnimation mergedHandlerResult of
             None \<Rightarrow> st4
           | Some animation \<Rightarrow>
               (let st5 = st4\<lparr>inertia := clear I (inertia st4)\<rparr>;
                    st6 = fireEvents H I T [] [] st5;
                    st7 = st6\<lparr>changes := []\<rparr>
                in map_calls [CameraAnimation animation] st7)))"

text \<open>
  \<^verbatim>\<open>_processInputEvent(e, eventName)\<close>. The assertion comes after
  \<^verbatim>\<open>this._updatingCamera = true\<close>: when it fails, the exception leaves the manager with
  the flag set and nothing else done. The result is the exception, if there is one, and
  the manager as the call leaves it. A handler method that throws is outside the model.
\<close>

definition processInputEvent ::
  "'h handler_ops \<Rightarrow> 'i inertia_ops \<Rightarrow> ('tr, 'loc) transform_ops \<Rightarrow> event \<Rightarrow> string option
     \<Rightarrow> ('h, 'tr, 'i) manager \<Rightarrow> error option \<times> ('h, 'tr, 'i) manager" where
  "processInputEvent H I T e eventName st =
     (let st0 = st\<lparr>updatingCamera := True\<rparr>
      in if timeStamp e = None then (Some AssertionError, st0)
         else
           (let inputEvent = (if etype e = ''renderFrame'' then None else Some e)
            in (None,
                afterDispatch H I T inputEvent
                  (dispatchLoop H e eventName inputEvent (handlers st0)
                     (empty_result\<lparr>needsRenderFrame := Some False\<rparr>, [], [], st0)))))"

text \<open>
  The callback that \<^verbatim>\<open>_triggerRenderFrame\<close> hands to the map, called with the time
  stamp of the frame: it deletes the token, dispatches a \<^verbatim>\<open>RenderFrameEvent\<close> and
  flushes.
\<close>

definition renderFrameCallback ::
  "'h handler_ops \<Rightarrow> 'i inertia_ops \<Rightarrow> ('tr, 'loc) transform_ops \<Rightarrow> real
     \<Rightarrow> ('h, 'tr, 'i) manager \<Rightarrow> error option \<times> ('h, 'tr, 'i) manager" where
  "renderFrameCallback H I T ts st =
     (case processInputEvent H I T \<lparr>etype = ''renderFrame'', timeStamp = Some ts\<rparr> None
             (st\<lparr>frameId := None\<rparr>) of
        (Some err, st1) \<Rightarrow> (Some err, st1)
      | (None, st1) \<Rightarrow> (None, applyChanges H I T st1))"

text \<open>
  Modelled from the spec: the map's side of a rendering frame, which is not among the
  sources. "The callback fires": the map takes the oldest request it holds and calls its
  callback; with no request there is nothing to call.
\<close>

definition renderFrame ::
  "'h handler_ops \<Rightarrow> 'i inertia_ops \<Rightarrow> ('tr, 'loc) transform_ops \<Rightarrow> real
     \<Rightarrow> ('h, 'tr, 'i) manager \<Rightarrow> ('h, 'tr, 'i) manager" where
  "renderFrame H I T ts st =
     (case frameRequests st of
        [] \<Rightarrow> st
      | request # rest \<Rightarrow> snd (renderFrameCallback H I T ts (st\<lparr>frameRequests := rest\<rparr>)))"

text \<open>
  What can happen to a manager: an input event arrives, a rendering frame comes, or
  \<^verbatim>\<open>stop()\<close> is called. An exception leaves through the listener, and the manager
  goes on from the state the call left it in.
\<close>

datatype action = Dispatch event "string option" | Frame real | Stop

fun step ::
  "'h handler_ops \<Rightarrow> 'i inertia_ops \<Rightarrow> ('tr, 'loc) transform_ops \<Rightarrow> action
     \<Rightarrow> ('h, 'tr, 'i) manager \<Rightarrow> ('h, 'tr, 'i) manager" where
  "step H I T (Dispatch e eventName) st = snd (processInputEvent H I T e eventName st)"
| "step H I T (Frame ts) st = renderFrame H I T ts st"
| "step H I T Stop st = stop H I T st"

fun run ::
  "'h handler_ops \<Rightarrow> 'i inertia_ops \<Rightarrow> ('tr, 'loc) transform_ops \<Rightarrow> action list
     \<Rightarrow> ('h, 'tr, 'i) manager \<Rightarrow> ('h, 'tr, 'i) manager" where
  "run H I T [] st = st"
| "run H I T (a # as) st = run H I T as (step H I T a st)"

subsection \<open>Notions used to state the properties\<close>

text \<open>The vector sum of a list of points.\<close>

fun sum_pts :: "point list \<Rightarrow> point" where
  "sum_pts [] = (0, 0)"
| "sum_pts (p # ps) = add_pt p (sum_pts ps)"

text \<open>The last value of a list that is not \<^verbatim>\<open>undefined\<close>, if there is one.\<close>

definition last_defined :: "'a option list \<Rightarrow> 'a option" where
  "last_defined xs = (let ys = filter (\<lambda>x. x \<noteq> None) xs in if ys = [] then None else last ys)"

text \<open>The values that the queued changes carry in one field, in queue order.\<close>

definition queued :: "(handler_result \<Rightarrow> 'a option) \<Rightarrow> change list \<Rightarrow> 'a list" where
  "queued field cs = List.map_filter (\<lambda>c. field (fst c)) cs"

text \<open>
  The record that \<^verbatim>\<open>mergeHandlerResult\<close> files for a gesture category: the handler's
  name with the originating event, \<^verbatim>\<open>handlerResult.originalEvent || e\<close>.
\<close>

definition owner :: "string \<Rightarrow> handler_result \<Rightarrow> event option \<Rightarrow> event_data" where
  "owner name from e =
     \<lparr>handlerName = name,
      origEvent = (case originalEvent from of Some ev \<Rightarrow> Some ev | None \<Rightarrow> e)\<rparr>"

text \<open>
  The names under which \<^verbatim>\<open>_fireEvents\<close> fires the events of the gesture categories, and
  \<^verbatim>\<open>move\<close>: the events that neither open nor close a gesture.
\<close>

definition lifecycle_names :: "string list" where
  "lifecycle_names =
     concat (map (\<lambda>c. [category_name c @ ''start'', category_name c, category_name c @ ''end''])
       [Zoom, Drag, Pitch, Rotate])"

definition category_fire :: "map_call \<Rightarrow> bool" where
  "category_fire c = (case c of Fire n e \<Rightarrow> n \<in> set (''move'' # lifecycle_names) | _ \<Rightarrow> False)"

text \<open>
  "Moving": some gesture category is in progress.
\<close>

definition moving :: "events_in_progress \<Rightarrow> bool" where
  "moving p = (isMoving p \<noteq> None)"

text \<open>
  The call with which \<^verbatim>\<open>_fireEvents\<close> opens a gesture, if it opens one: \<^verbatim>\<open>movestart\<close>.
\<close>

definition startCalls :: "events_in_progress \<Rightarrow> events_in_progress \<Rightarrow> map_call list" where
  "startCalls old new =
     (case isMoving new of
        Some d \<Rightarrow> if isMoving old = None then [Fire ''movestart'' (origEvent d)] else []
      | None \<Rightarrow> [])"

text \<open>
  Counting the calls made to the map: \<^verbatim>\<open>movestart\<close> events; gesture ends, which are
  \<^verbatim>\<open>moveend\<close> events and calls of \<^verbatim>\<open>easeTo\<close>; the targets handed to \<^verbatim>\<open>easeTo\<close>; calls of
  \<^verbatim>\<open>resetNorth\<close>.
\<close>

definition is_movestart :: "map_call \<Rightarrow> bool" where
  "is_movestart c = (case c of Fire n e \<Rightarrow> n = ''movestart'' | _ \<Rightarrow> False)"

definition is_gesture_end :: "map_call \<Rightarrow> bool" where
  "is_gesture_end c = (case c of Fire n e \<Rightarrow> n = ''moveend'' | EaseTo t e \<Rightarrow> True | _ \<Rightarrow> False)"

definition movestarts :: "('h, 'tr, 'i) manager \<Rightarrow> nat" where
  "movestarts st = length (filter is_movestart (calls st))"

definition gestureEnds :: "('h, 'tr, 'i) manager \<Rightarrow> nat" where
  "gestureEnds st = length (filter is_gesture_end (calls st))"

fun easeTargets :: "map_call list \<Rightarrow> ease_options list" where
  "easeTargets [] = []"
| "easeTargets (EaseTo t e # cs) = t # easeTargets cs"
| "easeTargets (c # cs) = easeTargets cs"

definition resetNorths :: "map_call list \<Rightarrow> nat" where
  "resetNorths cs = length (filter (\<lambda>c. c = ResetNorth) cs)"

text \<open>
  The bearing a gesture ends on: the bearing of the inertial ease when it has one, the
  bearing of the map otherwise.
\<close>

definition finalBearing ::
  "'i inertia_ops \<Rightarrow> ('tr, 'loc) transform_ops \<Rightarrow> ('h, 'tr, 'i) manager \<Rightarrow> real" where
  "finalBearing I T st =
     (case fst (onMoveEnd I (inertia st)) of
        Some ease \<Rightarrow> (case bearing ease of Some b \<Rightarrow> b | None \<Rightarrow> getBearing T (transform st))
      | None \<Rightarrow> getBearing T (transform st))"

text \<open>
  The persistent events-in-progress map as it stands after the first loop of
  \<^verbatim>\<open>_fireEvents\<close>, when the new entries are filed.
\<close>

definition afterMerge :: "events_in_progress \<Rightarrow> ('h, 'tr, 'i) manager \<Rightarrow> events_in_progress" where
  "afterMerge new st = eventsInProgress (startLoop new st)"

text \<open>
  A sequence of calls of \<^verbatim>\<open>_fireEvents\<close>: each call comes with its two arguments and
  with the states the handlers are in when it is made. \<open>startTransitions\<close> counts the
  calls in which the persistent map goes from not moving to moving, \<open>endTransitions\<close>
  those in which it goes from moving back to not moving.
\<close>

type_synonym 'h fire_call = "events_in_progress \<times> deactivated_handlers \<times> (string \<Rightarrow> 'h)"

fun fireEventsSeq ::
  "'h handler_ops \<Rightarrow> 'i inertia_ops \<Rightarrow> ('tr, 'loc) transform_ops \<Rightarrow> 'h fire_call list
     \<Rightarrow> ('h, 'tr, 'i) manager \<Rightarrow> ('h, 'tr, 'i) manager" where
  "fireEventsSeq H I T [] st = st"
| "fireEventsSeq H I T ((new, deact, hs) # rest) st =
     fireEventsSeq H I T rest (fireEvents H I T new deact (st\<lparr>handlersById := hs\<rparr>))"

fun startTransitions ::
  "'h handler_ops \<Rightarrow> 'i inertia_ops \<Rightarrow> ('tr, 'loc) transform_ops \<Rightarrow> 'h fire_call list
     \<Rightarrow> ('h, 'tr, 'i) manager \<Rightarrow> nat" where
  "startTransitions H I T [] st = 0"
| "startTransitions H I T ((new, deact, hs) # rest) st =
     (if \<not> moving (eventsInProgress st) \<and> moving (afterMerge new st) then 1 else 0)
     + startTransitions H I T rest (fireEvents H I T new deact (st\<lparr>handlersById := hs\<rparr>))"

fun endTransitions ::
  "'h handler_ops \<Rightarrow> 'i inertia_ops \<Rightarrow> ('tr, 'loc) transform_ops \<Rightarrow> 'h fire_call list
     \<Rightarrow> ('h, 'tr, 'i) manager \<Rightarrow> nat" where
  "endTransitions H I T [] st = 0"
| "endTransitions H I T ((new, deact, hs) # rest) st =
     (if moving (afterMerge new st)
         \<and> \<not> moving (eventsInProgress (fireEvents H I T new deact (st\<lparr>handlersById := hs\<rparr>)))
      then 1 else 0)
     + endTransitions H I T rest (fireEvents H I T new deact (st\<lparr>handlersById := hs\<rparr>))"

text \<open>
  The calls with which \<^verbatim>\<open>_fireEvents\<close> closes a gesture, stated with the final bearing.
\<close>

definition endCalls ::
  "'i inertia_ops \<Rightarrow> ('tr, 'loc) transform_ops \<Rightarrow> event option \<Rightarrow> ('h, 'tr, 'i) manager
     \<Rightarrow> map_call list" where
  "endCalls I T oee st =
     (case fst (onMoveEnd I (inertia st)) of
        Some ease \<Rightarrow>
          [EaseTo (if 0 < \<bar>finalBearing I T st\<bar> \<and> \<bar>finalBearing I T st\<bar> < bearingSnap st
                   then ease\<lparr>bearing := Some 0\<rparr> else ease) oee]
      | None \<Rightarrow>
          Fire ''moveend'' oee #
            (if 0 < \<bar>finalBearing I T st\<bar> \<and> \<bar>finalBearing I T st\<bar> < bearingSnap st
             then [ResetNorth] else []))"

text \<open>
  A small instance, to run the model on: a handler is its \<^verbatim>\<open>_active\<close> flag and pans by
  \<open>(5, 0)\<close> on a \<^verbatim>\<open>mousemove\<close> while it is active; the inertia tracker holds the ease
  target it will return; the transform is bearing, pitch, zoom and centre, and places
  the screen point \<open>q\<close> at \<open>centre + zoom * q\<close>.
\<close>

definition example_handlers :: "bool handler_ops" where
  "example_handlers =
     \<lparr>isEnabled = (\<lambda>h. True), isActive = (\<lambda>h. h), reset = (\<lambda>h. False),
      handle = (\<lambda>name e h.
        if name = ''mousemove'' \<and> h
        then Some (Some (empty_result\<lparr>panDelta := Some (5, 0), around := Some (Val (1, 2))\<rparr>), h)
        else if name = ''mousedown'' then Some (None, True)
        else if name = ''mouseup'' then Some (None, False)
        else None)\<rparr>"

definition example_inertia :: "(ease_options option) inertia_ops" where
  "example_inertia =
     \<lparr>clear = (\<lambda>i. None), record_settings = (\<lambda>r i. i), onMoveEnd = (\<lambda>i. (i, None))\<rparr>"

type_synonym example_tr = "real \<times> real \<times> real \<times> point"

definition example_transform :: "(example_tr, point) transform_ops" where
  "example_transform =
     \<lparr>centerPoint = (\<lambda>tr. (10, 10)),
      pointLocation = (\<lambda>(b, p, z, c) q. (fst c + z * fst q, snd c + z * snd q)),
      setLocationAtPoint = (\<lambda>l q (b, p, z, c). (b, p, z, (fst l - z * fst q, snd l - z * snd q))),
      getBearing = (\<lambda>(b, p, z, c). b),
      setBearing = (\<lambda>b' (b, p, z, c). (b', p, z, c)),
      getPitch = (\<lambda>(b, p, z, c). p),
      setPitch = (\<lambda>p' (b, p, z, c). (b, p', z, c)),
      getZoom = (\<lambda>(b, p, z, c). z),
      setZoom = (\<lambda>z' (b, p, z, c). (b, p, z', c))\<rparr>"

definition example_manager :: "(bool, example_tr, ease_options option) manager" where
  "example_manager =
     \<lparr>handlers = [(''mousePan'', None)], handlersById = (\<lambda>name. False), eventsInProgress = [],
      frameId = None, inertia = None, bearingSnap = 7, updatingCamera = False, changes = [],
      previousActiveHandlers = [], bearingChanged = False, transform = (3, 0, 1, (0, 0)),
      calls = [], frameRequests = [], nextFrameId = 0\<rparr>"

text \<open>
  The manager after a stretch of code that calls \<^verbatim>\<open>_triggerRenderFrame()\<close> (\<open>b\<close>) or
  does not.
\<close>

definition framed :: "bool \<Rightarrow> ('h, 'tr, 'i) manager \<Rightarrow> ('h, 'tr, 'i) manager" where
  "framed b st = (if b then triggerRenderFrame st else st)"

text \<open>
  The calls of \<^verbatim>\<open>_requestRenderFrame\<close> made so far; a manager is coalesced when the
  token \<^verbatim>\<open>_frameId\<close> is set exactly when the map holds a request, and then it holds that
  one request.
\<close>

definition is_request :: "map_call \<Rightarrow> bool" where
  "is_request c = (case c of RequestRenderFrame n \<Rightarrow> True | _ \<Rightarrow> False)"

definition requests :: "('h, 'tr, 'i) manager \<Rightarrow> nat" where
  "requests st = length (filter is_request (calls st))"

definition coalesced :: "('h, 'tr, 'i) manager \<Rightarrow> bool" where
  "coalesced st = (frameRequests st = (case frameId st of None \<Rightarrow> [] | Some token \<Rightarrow> [token]))"

text \<open>
  The actions that are frame callbacks, and the part of the state that the frame requests
  make.
\<close>

fun is_frame :: "action \<Rightarrow> bool" where
  "is_frame (Frame ts) = True"
| "is_frame a = False"

definition frames :: "('h, 'tr, 'i) manager \<Rightarrow> nat option \<times> nat list \<times> nat \<times> nat" where
  "frames st = (frameId st, frameRequests st, nextFrameId st, requests st)"



text \<open>
  The instance in the middle of a drag: a pan and a zoom are queued and a frame is
  requested.
\<close>

definition busy_manager :: "(bool, example_tr, ease_options option) manager" where
  "busy_manager =
     example_manager
       \<lparr>handlersById := (\<lambda>name. True),
        eventsInProgress := [(Drag, \<lparr>handlerName = ''mousePan'', origEvent = None\<rparr>)],
        inertia := Some \<lparr>bearing = None, easing = 1\<rparr>,
        changes := [(empty_result\<lparr>panDelta := Some (5, 0), zoomDelta := Some 1,
                       around := Some (Val (1, 2))\<rparr>,
                     [(Drag, \<lparr>handlerName = ''mousePan'', origEvent = None\<rparr>)], [])],
        previousActiveHandlers := [''mousePan''],
        frameId := Some 0, frameRequests := [0], nextFrameId := 1\<rparr>"

text \<open>
  The same instance with one queued change that zooms around a pinch anchor, \<open>(7, 7)\<close>,
  while it also names an anchor, \<open>(1, 2)\<close>; and with one that rotates with the pinch
  anchor \<^verbatim>\<open>null\<close>, which sends the update to the centre, \<open>(10, 10)\<close>.
\<close>

definition pinch_manager :: "(bool, example_tr, ease_options option) manager" where
  "pinch_manager =
     busy_manager
       \<lparr>changes := [(empty_result\<lparr>panDelta := Some (2, 0), zoomDelta := Some 1,
                       around := Some (Val (1, 2)), pinchAround := Some (Val (7, 7))\<rparr>,
                     [], [])]\<rparr>"

definition centre_manager :: "(bool, example_tr, ease_options option) manager" where
  "centre_manager =
     busy_manager
       \<lparr>changes := [(empty_result\<lparr>zoomDelta := Some 1, bearingDelta := Some 2,
                       around := Some (Val (1, 2)), pinchAround := Some Null\<rparr>,
                     [], [])]\<rparr>"

text \<open>
  The screen point whose location an update puts under the point \<open>p\<close>: \<open>p - d\<close> when the
  combined result carries a pan delta \<open>d\<close>, and \<open>p\<close> itself when it carries none.
\<close>

definition panned_from :: "handler_result \<Rightarrow> point \<Rightarrow> point" where
  "panned_from c p = (case panDelta c of Some d \<Rightarrow> (fst p - fst d, snd p - snd d) | None \<Rightarrow> p)"

text \<open>
  A mouse press and two moves.
\<close>

definition example_actions :: "action list" where
  "example_actions =
     [Dispatch \<lparr>etype = ''mousedown'', timeStamp = Some 1\<rparr> None,
      Dispatch \<lparr>etype = ''mousemove'', timeStamp = Some 2\<rparr> None,
      Dispatch \<lparr>etype = ''mousemove'', timeStamp = Some 3\<rparr> None]"

section \<open>Properties\<close>

lemma indexOf_neg_iff: "indexOf ys x < 0 \<longleftrightarrow> x \<notin> set ys"
  by (induction ys) (auto simp: Let_def)

text \<open>
  Claim C4. For every list of active handlers, every allow-list and every candidate,
  \<^verbatim>\<open>_blockedByActive\<close> returns true if and only if some active handler other than the
  candidate is absent from the allow-list (a handler registered without an allow-list
  has no name on it).
\<close>

theorem blockedByActive_iff:
  "blockedByActive active allowed myName \<longleftrightarrow>
     (\<exists>name. name \<in> set active \<and> name \<noteq> myName \<and>
        name \<notin> (case allowed of None \<Rightarrow> {} | Some al \<Rightarrow> set al))"
  by (induction active) (auto simp: indexOf_neg_iff split: option.splits)

theorem blockedByActive_iff_witness:
  "blockedByActive [''touchPan'', ''touchZoom'', ''mousePan''] (Some [''touchZoom'', ''touchRotate''])
     ''touchPan''
   \<and> \<not> blockedByActive [''touchPan'', ''touchZoom''] (Some [''touchZoom'', ''touchRotate''])
     ''touchPan''"
  using blockedByActive_iff [of "[''touchPan'', ''touchZoom'', ''mousePan'']"
      "Some [''touchZoom'', ''touchRotate'']" "''touchPan''"]
    blockedByActive_iff [of "[''touchPan'', ''touchZoom'']"
      "Some [''touchZoom'', ''touchRotate'']" "''touchPan''"]
  by simp

lemma blockedByActive_None:
  "blockedByActive active None myName \<longleftrightarrow> (\<exists>name. name \<in> set active \<and> name \<noteq> myName)"
  by (induction active) auto

text \<open>
  Claim C10. A handler registered without an allow-list is blocked exactly when the
  active handlers contain a name other than its own; so no handler is blocked by itself
  alone, and none is blocked while no handler is active, whatever its allow-list. In the
  dispatch loop, where the active handlers are those found active earlier in the same
  dispatch, such a handler, when it is enabled, is reset instead of being called, and
  nothing is merged for it.
\<close>

theorem blockedByActive_no_allow_list:
  "(blockedByActive active None myName \<longleftrightarrow> (\<exists>name. name \<in> set active \<and> name \<noteq> myName))
   \<and> \<not> blockedByActive [myName] allowed myName
   \<and> \<not> blockedByActive [] allowed myName
   \<and> (isEnabled H (handlersById st myName) \<and> (\<exists>name. name \<in> set active \<and> name \<noteq> myName) \<longrightarrow>
        dispatchTo H e eventName inputEvent (myName, None) (merged, inProgress, active, st) =
          (merged, inProgress,
           if isActive H (reset H (handlersById st myName)) then add_key myName active else active,
           st\<lparr>handlersById := (handlersById st)(myName := reset H (handlersById st myName))\<rparr>))"
  by (simp add: blockedByActive_None dispatchTo_def invoke_def)

theorem blockedByActive_no_allow_list_witness:
  "blockedByActive [''mousePan'', ''keyboard''] None ''keyboard''
   \<and> \<not> blockedByActive [''keyboard''] None ''keyboard''
   \<and> \<not> blockedByActive [] None ''keyboard''
   \<and> dispatchTo example_handlers \<lparr>etype = ''mousedown'', timeStamp = Some 1\<rparr> None
        (Some \<lparr>etype = ''mousedown'', timeStamp = Some 1\<rparr>) (''keyboard'', None)
        (empty_result, [], [''mousePan''], busy_manager) =
      (empty_result, [], [''mousePan''],
       busy_manager\<lparr>handlersById := (handlersById busy_manager)(''keyboard'' := False)\<rparr>)"
proof -
  have h: "isEnabled example_handlers (handlersById busy_manager ''keyboard'')
      \<and> (\<exists>name. name \<in> set [''mousePan''] \<and> name \<noteq> ''keyboard'')"
    by (simp add: example_handlers_def)
  show ?thesis
    using blockedByActive_no_allow_list [of "[''mousePan'', ''keyboard'']" "''keyboard''" None
        example_handlers busy_manager "\<lparr>etype = ''mousedown'', timeStamp = Some 1\<rparr>" None
        "Some \<lparr>etype = ''mousedown'', timeStamp = Some 1\<rparr>" empty_result "[]"]
      blockedByActive_no_allow_list [of "[]" "''keyboard''" None]
      blockedByActive_no_allow_list [of "[''mousePan'']" "''keyboard''" None
        example_handlers busy_manager "\<lparr>etype = ''mousedown'', timeStamp = Some 1\<rparr>" None
        "Some \<lparr>etype = ''mousedown'', timeStamp = Some 1\<rparr>" empty_result "[]"] h
    by (simp add: example_handlers_def)
qed

subsection \<open>The flush\<close>

lemma combine_changes_fst:
  "fst (combine_changes (c, e, d) cs) = foldl combine_result c (map fst cs)"
  by (induction cs arbitrary: c e d) auto

lemma combined_of_foldl: "combined_of cs = foldl combine_result empty_result (map fst cs)"
  by (simp add: combined_of_def combine_changes_fst)

lemma combine_result_panDelta:
  "panDelta (combine_result c r) =
     (case panDelta r of None \<Rightarrow> panDelta c | Some d \<Rightarrow> Some (add_pt (or_origin (panDelta c)) d))"
  by (simp add: combine_result_def Let_def split: option.splits)

lemma combine_result_zoomDelta:
  "zoomDelta (combine_result c r) =
     (case zoomDelta r of None \<Rightarrow> zoomDelta c
      | Some z \<Rightarrow> if z \<noteq> 0 then Some (or_zero (zoomDelta c) + z) else zoomDelta c)"
  by (simp add: combine_result_def Let_def split: option.splits)

lemma combine_result_bearingDelta:
  "bearingDelta (combine_result c r) =
     (case bearingDelta r of None \<Rightarrow> bearingDelta c
      | Some z \<Rightarrow> if z \<noteq> 0 then Some (or_zero (bearingDelta c) + z) else bearingDelta c)"
  by (simp add: combine_result_def Let_def split: option.splits)

lemma combine_result_pitchDelta:
  "pitchDelta (combine_result c r) =
     (case pitchDelta r of None \<Rightarrow> pitchDelta c
      | Some z \<Rightarrow> if z \<noteq> 0 then Some (or_zero (pitchDelta c) + z) else pitchDelta c)"
  by (simp add: combine_result_def Let_def split: option.splits)

lemma combine_result_around:
  "around (combine_result c r) = overwrite (around c) (around r)"
  by (simp add: combine_result_def Let_def overwrite_def split: option.splits)

lemma combine_result_pinchAround:
  "pinchAround (combine_result c r) = overwrite (pinchAround c) (pinchAround r)"
  by (simp add: combine_result_def Let_def overwrite_def split: option.splits)

lemma combine_result_noInertia:
  "truthy_flag (noInertia (combine_result c r)) \<longleftrightarrow>
     truthy_flag (noInertia c) \<or> truthy_flag (noInertia r)"
  by (auto simp add: combine_result_def Let_def truthy_flag_def split: option.splits)

lemma add_pt_assoc: "add_pt (add_pt a b) c = add_pt a (add_pt b c)"
  by (simp add: add_pt_def)

lemma add_pt_origin [simp]: "add_pt p (0, 0) = p" "add_pt (0, 0) p = p"
  by (simp_all add: add_pt_def)

lemma map_filter_map: "List.map_filter f (map g xs) = List.map_filter (\<lambda>x. f (g x)) xs"
  by (induction xs) (simp_all split: option.splits)

lemma queued_append: "queued f (xs @ ys) = queued f xs @ queued f ys"
  by (induction xs) (simp_all add: queued_def split: option.splits)

lemma queued_Cons:
  "queued f (c # cs) = (case f (fst c) of None \<Rightarrow> queued f cs | Some v \<Rightarrow> v # queued f cs)"
  by (simp add: queued_def split: option.splits)

lemma sum_pts_append: "sum_pts (xs @ ys) = add_pt (sum_pts xs) (sum_pts ys)"
  by (induction xs) (simp_all add: add_pt_assoc)

lemma sum_pts_replicate: "sum_pts (replicate n (dx, dy)) = (real n * dx, real n * dy)"
  by (induction n) (simp_all add: add_pt_def algebra_simps)

lemma foldl_panDelta:
  "panDelta (foldl combine_result c rs) =
     (if List.map_filter panDelta rs = [] then panDelta c
      else Some (add_pt (or_origin (panDelta c)) (sum_pts (List.map_filter panDelta rs))))"
proof (induction rs arbitrary: c)
  case Nil
  show ?case by simp
next
  case (Cons r rs)
  show ?case
    by (cases "panDelta r")
      (simp_all add: Cons.IH combine_result_panDelta or_origin_def add_pt_assoc)
qed

lemma foldl_scalar:
  assumes step: "\<And>c r. f (combine_result c r) =
     (case f r of None \<Rightarrow> f c | Some z \<Rightarrow> if z \<noteq> 0 then Some (or_zero (f c) + z) else f c)"
  shows "or_zero (f (foldl combine_result c rs)) = or_zero (f c) + sum_list (List.map_filter f rs)
    \<and> (f (foldl combine_result c rs) = None \<longleftrightarrow> f c = None \<and> list_all (\<lambda>r. \<not> truthy (f r)) rs)"
proof (induction rs arbitrary: c)
  case Nil
  show ?case by simp
next
  case (Cons r rs)
  have "or_zero (f (combine_result c r)) = or_zero (f c) + (case f r of None \<Rightarrow> 0 | Some z \<Rightarrow> z)"
    by (simp add: step or_zero_def split: option.splits)
  moreover have "f (combine_result c r) = None \<longleftrightarrow> f c = None \<and> \<not> truthy (f r)"
    by (simp add: step truthy_def split: option.splits)
  ultimately show ?case
    using Cons.IH [of "combine_result c r"]
    by (cases "f r") simp_all
qed

lemma last_defined_Nil [simp]: "last_defined [] = None"
  by (simp add: last_defined_def)

lemma last_defined_Cons: "last_defined (x # xs) = overwrite x (last_defined xs)"
proof (cases "filter (\<lambda>x. x \<noteq> None) xs = []")
  case True
  then show ?thesis by (cases x) (simp_all add: last_defined_def overwrite_def)
next
  case False
  then have "last (filter (\<lambda>x. x \<noteq> None) xs) \<in> set (filter (\<lambda>x. x \<noteq> None) xs)"
    by (rule last_in_set)
  then have "last (filter (\<lambda>x. x \<noteq> None) xs) \<noteq> None" by simp
  with False show ?thesis
    by (auto simp add: last_defined_def overwrite_def Let_def split: option.splits)
qed

lemma overwrite_assoc: "overwrite (overwrite a b) c = overwrite a (overwrite b c)"
  by (simp add: overwrite_def split: option.splits)

lemma foldl_last_value:
  assumes step: "\<And>c r. f (combine_result c r) = overwrite (f c) (f r)"
  shows "f (foldl combine_result c rs) = overwrite (f c) (last_defined (map f rs))"
proof (induction rs arbitrary: c)
  case Nil
  show ?case by (simp add: overwrite_def)
next
  case (Cons r rs)
  show ?case
    by (simp add: Cons.IH step last_defined_Cons overwrite_assoc)
qed

lemma foldl_noInertia:
  "truthy_flag (noInertia (foldl combine_result c rs)) \<longleftrightarrow>
     truthy_flag (noInertia c) \<or> list_ex (\<lambda>r. truthy_flag (noInertia r)) rs"
  by (induction rs arbitrary: c) (auto simp: combine_result_noInertia)

lemma combined_panDelta:
  "panDelta (combined_of cs) =
     (if queued panDelta cs = [] then None else Some (sum_pts (queued panDelta cs)))"
  by (simp add: combined_of_foldl foldl_panDelta queued_def map_filter_map empty_result_def
      or_origin_def)

lemma combined_zoomDelta:
  "or_zero (zoomDelta (combined_of cs)) = sum_list (queued zoomDelta cs)
   \<and> (zoomDelta (combined_of cs) = None \<longleftrightarrow> list_all (\<lambda>c. \<not> truthy (zoomDelta (fst c))) cs)"
  using foldl_scalar [of zoomDelta empty_result "map fst cs", OF combine_result_zoomDelta]
  by (simp add: combined_of_foldl queued_def map_filter_map empty_result_def or_zero_def
      list_all_iff)

lemma combined_bearingDelta:
  "or_zero (bearingDelta (combined_of cs)) = sum_list (queued bearingDelta cs)
   \<and> (bearingDelta (combined_of cs) = None \<longleftrightarrow>
        list_all (\<lambda>c. \<not> truthy (bearingDelta (fst c))) cs)"
  using foldl_scalar [of bearingDelta empty_result "map fst cs", OF combine_result_bearingDelta]
  by (simp add: combined_of_foldl queued_def map_filter_map empty_result_def or_zero_def
      list_all_iff)

lemma combined_pitchDelta:
  "or_zero (pitchDelta (combined_of cs)) = sum_list (queued pitchDelta cs)
   \<and> (pitchDelta (combined_of cs) = None \<longleftrightarrow> list_all (\<lambda>c. \<not> truthy (pitchDelta (fst c))) cs)"
  using foldl_scalar [of pitchDelta empty_result "map fst cs", OF combine_result_pitchDelta]
  by (simp add: combined_of_foldl queued_def map_filter_map empty_result_def or_zero_def
      list_all_iff)

lemma combined_around:
  "around (combined_of cs) = last_defined (map (\<lambda>c. around (fst c)) cs)"
  using foldl_last_value [of around empty_result "map fst cs", OF combine_result_around]
  by (simp add: combined_of_foldl empty_result_def overwrite_def comp_def split: option.splits)

lemma combined_pinchAround:
  "pinchAround (combined_of cs) = last_defined (map (\<lambda>c. pinchAround (fst c)) cs)"
  using foldl_last_value [of pinchAround empty_result "map fst cs", OF combine_result_pinchAround]
  by (simp add: combined_of_foldl empty_result_def overwrite_def comp_def split: option.splits)

lemma combined_noInertia:
  "truthy_flag (noInertia (combined_of cs)) \<longleftrightarrow>
     list_ex (\<lambda>c. truthy_flag (noInertia (fst c))) cs"
  using foldl_noInertia [of empty_result "map fst cs"]
  by (simp add: combined_of_foldl empty_result_def truthy_flag_def list_ex_iff)

text \<open>
  Claim C2. The combined result of a flush: its pan delta is the vector sum of the queued
  pan deltas (there is none when no queued change carries one); its zoom, bearing and
  pitch deltas are the sums of the queued ones (the property is missing exactly when every
  queued one is missing or zero); its anchor and pinch anchor are the last values that
  are not \<^verbatim>\<open>undefined\<close>; its suppress-inertia flag is set exactly when a queued change set
  it. So \<open>n\<close> queued changes with pan delta \<open>(dx, dy)\<close> combine to \<open>(n * dx, n * dy)\<close>.
\<close>

theorem applyChanges_accumulates:
  "panDelta (combined_of cs) =
     (if queued panDelta cs = [] then None else Some (sum_pts (queued panDelta cs)))
   \<and> or_zero (zoomDelta (combined_of cs)) = sum_list (queued zoomDelta cs)
   \<and> or_zero (bearingDelta (combined_of cs)) = sum_list (queued bearingDelta cs)
   \<and> or_zero (pitchDelta (combined_of cs)) = sum_list (queued pitchDelta cs)
   \<and> (zoomDelta (combined_of cs) = None \<longleftrightarrow> list_all (\<lambda>c. \<not> truthy (zoomDelta (fst c))) cs)
   \<and> (bearingDelta (combined_of cs) = None \<longleftrightarrow>
        list_all (\<lambda>c. \<not> truthy (bearingDelta (fst c))) cs)
   \<and> (pitchDelta (combined_of cs) = None \<longleftrightarrow> list_all (\<lambda>c. \<not> truthy (pitchDelta (fst c))) cs)
   \<and> around (combined_of cs) = last_defined (map (\<lambda>c. around (fst c)) cs)
   \<and> pinchAround (combined_of cs) = last_defined (map (\<lambda>c. pinchAround (fst c)) cs)
   \<and> (truthy_flag (noInertia (combined_of cs)) \<longleftrightarrow>
        list_ex (\<lambda>c. truthy_flag (noInertia (fst c))) cs)
   \<and> panDelta (combined_of (replicate n (r\<lparr>panDelta := Some (dx, dy)\<rparr>, e, d))) =
       (if n = 0 then None else Some (real n * dx, real n * dy))"
proof -
  have q: "queued panDelta (replicate n (r\<lparr>panDelta := Some (dx, dy)\<rparr>, e, d)) =
      replicate n (dx, dy)"
    by (induction n) (simp_all add: queued_def)
  have rep: "panDelta (combined_of (replicate n (r\<lparr>panDelta := Some (dx, dy)\<rparr>, e, d))) =
       (if n = 0 then None else Some (real n * dx, real n * dy))"
    unfolding combined_panDelta q sum_pts_replicate by simp
  from combined_panDelta [of cs] combined_zoomDelta [of cs] combined_bearingDelta [of cs]
    combined_pitchDelta [of cs] combined_around [of cs] combined_pinchAround [of cs]
    combined_noInertia [of cs] rep
  show ?thesis by blast
qed

theorem applyChanges_accumulates_witness:
  "panDelta (combined_of
      [(empty_result\<lparr>panDelta := Some (5, 0), around := Some (Val (1, 1))\<rparr>, [], []),
       (empty_result\<lparr>zoomDelta := Some 2, noInertia := Some True\<rparr>, [], []),
       (empty_result\<lparr>panDelta := Some (3, 4), zoomDelta := Some (-1), around := Some Null\<rparr>, [], [])])
     = Some (8, 4)
   \<and> or_zero (zoomDelta (combined_of
      [(empty_result\<lparr>panDelta := Some (5, 0), around := Some (Val (1, 1))\<rparr>, [], []),
       (empty_result\<lparr>zoomDelta := Some 2, noInertia := Some True\<rparr>, [], []),
       (empty_result\<lparr>panDelta := Some (3, 4), zoomDelta := Some (-1), around := Some Null\<rparr>, [], [])]))
     = 1
   \<and> around (combined_of
      [(empty_result\<lparr>panDelta := Some (5, 0), around := Some (Val (1, 1))\<rparr>, [], []),
       (empty_result\<lparr>zoomDelta := Some 2, noInertia := Some True\<rparr>, [], []),
       (empty_result\<lparr>panDelta := Some (3, 4), zoomDelta := Some (-1), around := Some Null\<rparr>, [], [])])
     = Some Null
   \<and> truthy_flag (noInertia (combined_of
      [(empty_result\<lparr>panDelta := Some (5, 0), around := Some (Val (1, 1))\<rparr>, [], []),
       (empty_result\<lparr>zoomDelta := Some 2, noInertia := Some True\<rparr>, [], []),
       (empty_result\<lparr>panDelta := Some (3, 4), zoomDelta := Some (-1), around := Some Null\<rparr>, [], [])]))
   \<and> panDelta (combined_of (replicate 3 (empty_result\<lparr>panDelta := Some (5, 0)\<rparr>, [], [])))
     = Some (15, 0)"
  using applyChanges_accumulates [where cs =
      "[(empty_result\<lparr>panDelta := Some (5, 0), around := Some (Val (1, 1))\<rparr>, [], []),
       (empty_result\<lparr>zoomDelta := Some 2, noInertia := Some True\<rparr>, [], []),
       (empty_result\<lparr>panDelta := Some (3, 4), zoomDelta := Some (-1), around := Some Null\<rparr>, [], [])]"
      and n = 3 and r = empty_result and dx = 5 and dy = 0 and e = "[]" and d = "[]"]
  by (simp add: queued_def empty_result_def add_pt_def last_defined_def truthy_flag_def)

subsection \<open>The merge within one dispatch\<close>

lemma merge_fst: "fst (mergeHandlerResult into eip (Some from) name e) = extend_result into from"
  by (simp add: mergeHandlerResult_def Let_def)

lemma merge_None: "mergeHandlerResult into eip None name e = (into, eip)"
  by (simp add: mergeHandlerResult_def)

lemma merge_snd_map_of:
  "map_of (snd (mergeHandlerResult into eip (Some from) name e)) c =
     (if (case c of Zoom \<Rightarrow> zoomDelta from \<noteq> None | Drag \<Rightarrow> panDelta from \<noteq> None
          | Pitch \<Rightarrow> pitchDelta from \<noteq> None | Rotate \<Rightarrow> bearingDelta from \<noteq> None)
      then Some (owner name from e) else map_of eip c)"
  by (cases c) (simp_all add: mergeHandlerResult_def Let_def update_conv' owner_def)

text \<open>
  Claim C3. \<^verbatim>\<open>mergeHandlerResult\<close> overwrites each field of the merged result with the
  field of the handler's result when that carries it and keeps it otherwise (so of the
  handlers merged in registration order the last one carrying a field decides it), and
  for each of \<^verbatim>\<open>zoomDelta\<close>, \<^verbatim>\<open>panDelta\<close>, \<^verbatim>\<open>pitchDelta\<close>, \<^verbatim>\<open>bearingDelta\<close> that the
  result carries it files the handler, with the originating event, as the owner of
  \<^verbatim>\<open>zoom\<close>, \<^verbatim>\<open>drag\<close>, \<^verbatim>\<open>pitch\<close>, \<^verbatim>\<open>rotate\<close>; the other categories keep their owner. A
  handler that returned nothing changes neither object.
\<close>

theorem mergeHandlerResult_overwrites_and_records:
  "panDelta (fst (mergeHandlerResult into eip (Some from) name e)) =
       (case panDelta from of Some v \<Rightarrow> Some v | None \<Rightarrow> panDelta into)
   \<and> zoomDelta (fst (mergeHandlerResult into eip (Some from) name e)) =
       (case zoomDelta from of Some v \<Rightarrow> Some v | None \<Rightarrow> zoomDelta into)
   \<and> bearingDelta (fst (mergeHandlerResult into eip (Some from) name e)) =
       (case bearingDelta from of Some v \<Rightarrow> Some v | None \<Rightarrow> bearingDelta into)
   \<and> pitchDelta (fst (mergeHandlerResult into eip (Some from) name e)) =
       (case pitchDelta from of Some v \<Rightarrow> Some v | None \<Rightarrow> pitchDelta into)
   \<and> around (fst (mergeHandlerResult into eip (Some from) name e)) =
       (case around from of Some v \<Rightarrow> Some v | None \<Rightarrow> around into)
   \<and> pinchAround (fst (mergeHandlerResult into eip (Some from) name e)) =
       (case pinchAround from of Some v \<Rightarrow> Some v | None \<Rightarrow> pinchAround into)
   \<and> cameraAnimation (fst (mergeHandlerResult into eip (Some from) name e)) =
       (case cameraAnimation from of Some v \<Rightarrow> Some v | None \<Rightarrow> cameraAnimation into)
   \<and> originalEvent (fst (mergeHandlerResult into eip (Some from) name e)) =
       (case originalEvent from of Some v \<Rightarrow> Some v | None \<Rightarrow> originalEvent into)
   \<and> needsRenderFrame (fst (mergeHandlerResult into eip (Some from) name e)) =
       (case needsRenderFrame from of Some v \<Rightarrow> Some v | None \<Rightarrow> needsRenderFrame into)
   \<and> noInertia (fst (mergeHandlerResult into eip (Some from) name e)) =
       (case noInertia from of Some v \<Rightarrow> Some v | None \<Rightarrow> noInertia into)
   \<and> map_of (snd (mergeHandlerResult into eip (Some from) name e)) Zoom =
       (if zoomDelta from \<noteq> None then Some (owner name from e) else map_of eip Zoom)
   \<and> map_of (snd (mergeHandlerResult into eip (Some from) name e)) Drag =
       (if panDelta from \<noteq> None then Some (owner name from e) else map_of eip Drag)
   \<and> map_of (snd (mergeHandlerResult into eip (Some from) name e)) Pitch =
       (if pitchDelta from \<noteq> None then Some (owner name from e) else map_of eip Pitch)
   \<and> map_of (snd (mergeHandlerResult into eip (Some from) name e)) Rotate =
       (if bearingDelta from \<noteq> None then Some (owner name from e) else map_of eip Rotate)
   \<and> mergeHandlerResult into eip None name e = (into, eip)"
  by (simp add: merge_fst merge_None merge_snd_map_of extend_result_def overwrite_def)

theorem mergeHandlerResult_overwrites_and_records_witness:
  "zoomDelta (fst (mergeHandlerResult
      (empty_result\<lparr>needsRenderFrame := Some False, zoomDelta := Some 1, around := Some (Val (2, 3))\<rparr>)
      [(Zoom, \<lparr>handlerName = ''scrollZoom'', origEvent = None\<rparr>)]
      (Some (empty_result\<lparr>zoomDelta := Some 4, pinchAround := Some Null\<rparr>))
      ''touchZoom'' (Some \<lparr>etype = ''touchmove'', timeStamp = Some 7\<rparr>))) = Some 4
   \<and> around (fst (mergeHandlerResult
      (empty_result\<lparr>needsRenderFrame := Some False, zoomDelta := Some 1, around := Some (Val (2, 3))\<rparr>)
      [(Zoom, \<lparr>handlerName = ''scrollZoom'', origEvent = None\<rparr>)]
      (Some (empty_result\<lparr>zoomDelta := Some 4, pinchAround := Some Null\<rparr>))
      ''touchZoom'' (Some \<lparr>etype = ''touchmove'', timeStamp = Some 7\<rparr>))) = Some (Val (2, 3))
   \<and> map_of (snd (mergeHandlerResult
      (empty_result\<lparr>needsRenderFrame := Some False, zoomDelta := Some 1, around := Some (Val (2, 3))\<rparr>)
      [(Zoom, \<lparr>handlerName = ''scrollZoom'', origEvent = None\<rparr>)]
      (Some (empty_result\<lparr>zoomDelta := Some 4, pinchAround := Some Null\<rparr>))
      ''touchZoom'' (Some \<lparr>etype = ''touchmove'', timeStamp = Some 7\<rparr>))) Zoom =
       Some \<lparr>handlerName = ''touchZoom'', origEvent = Some \<lparr>etype = ''touchmove'', timeStamp = Some 7\<rparr>\<rparr>
   \<and> map_of (snd (mergeHandlerResult
      (empty_result\<lparr>needsRenderFrame := Some False, zoomDelta := Some 1, around := Some (Val (2, 3))\<rparr>)
      [(Zoom, \<lparr>handlerName = ''scrollZoom'', origEvent = None\<rparr>)]
      (Some (empty_result\<lparr>zoomDelta := Some 4, pinchAround := Some Null\<rparr>))
      ''touchZoom'' (Some \<lparr>etype = ''touchmove'', timeStamp = Some 7\<rparr>))) Drag = None"
  using mergeHandlerResult_overwrites_and_records [of
      "empty_result\<lparr>needsRenderFrame := Some False, zoomDelta := Some 1, around := Some (Val (2, 3))\<rparr>"
      "[(Zoom, \<lparr>handlerName = ''scrollZoom'', origEvent = None\<rparr>)]"
      "empty_result\<lparr>zoomDelta := Some 4, pinchAround := Some Null\<rparr>"
      "''touchZoom''" "Some \<lparr>etype = ''touchmove'', timeStamp = Some 7\<rparr>"]
  by (simp add: empty_result_def owner_def)

lemma combined_pan_value: "or_origin (panDelta (combined_of cs)) = sum_pts (queued panDelta cs)"
  by (simp add: combined_panDelta or_origin_def)

text \<open>
  Claim C9. A delta field that a handler result does not carry files no owner for its
  gesture category and adds nothing to the sum of the flush; a delta field set to zero
  files the handler as the owner of the category and adds zero to the sum.
\<close>

theorem absent_versus_explicit_zero:
  "map_of (snd (mergeHandlerResult into eip (Some (from\<lparr>zoomDelta := None\<rparr>)) name e)) Zoom =
       map_of eip Zoom
   \<and> map_of (snd (mergeHandlerResult into eip (Some (from\<lparr>panDelta := None\<rparr>)) name e)) Drag =
       map_of eip Drag
   \<and> map_of (snd (mergeHandlerResult into eip (Some (from\<lparr>pitchDelta := None\<rparr>)) name e)) Pitch =
       map_of eip Pitch
   \<and> map_of (snd (mergeHandlerResult into eip (Some (from\<lparr>bearingDelta := None\<rparr>)) name e)) Rotate =
       map_of eip Rotate
   \<and> map_of (snd (mergeHandlerResult into eip (Some (from\<lparr>zoomDelta := Some 0\<rparr>)) name e)) Zoom =
       Some (owner name from e)
   \<and> map_of (snd (mergeHandlerResult into eip (Some (from\<lparr>panDelta := Some (0, 0)\<rparr>)) name e)) Drag =
       Some (owner name from e)
   \<and> map_of (snd (mergeHandlerResult into eip (Some (from\<lparr>pitchDelta := Some 0\<rparr>)) name e)) Pitch =
       Some (owner name from e)
   \<and> map_of (snd (mergeHandlerResult into eip (Some (from\<lparr>bearingDelta := Some 0\<rparr>)) name e)) Rotate =
       Some (owner name from e)
   \<and> or_zero (zoomDelta (combined_of (cs @ (from\<lparr>zoomDelta := None\<rparr>, ep, d) # cs'))) =
       or_zero (zoomDelta (combined_of (cs @ cs')))
   \<and> or_zero (zoomDelta (combined_of (cs @ (from\<lparr>zoomDelta := Some 0\<rparr>, ep, d) # cs'))) =
       or_zero (zoomDelta (combined_of (cs @ cs')))
   \<and> or_origin (panDelta (combined_of (cs @ (from\<lparr>panDelta := None\<rparr>, ep, d) # cs'))) =
       or_origin (panDelta (combined_of (cs @ cs')))
   \<and> or_origin (panDelta (combined_of (cs @ (from\<lparr>panDelta := Some (0, 0)\<rparr>, ep, d) # cs'))) =
       or_origin (panDelta (combined_of (cs @ cs')))
   \<and> or_zero (pitchDelta (combined_of (cs @ (from\<lparr>pitchDelta := None\<rparr>, ep, d) # cs'))) =
       or_zero (pitchDelta (combined_of (cs @ cs')))
   \<and> or_zero (pitchDelta (combined_of (cs @ (from\<lparr>pitchDelta := Some 0\<rparr>, ep, d) # cs'))) =
       or_zero (pitchDelta (combined_of (cs @ cs')))
   \<and> or_zero (bearingDelta (combined_of (cs @ (from\<lparr>bearingDelta := None\<rparr>, ep, d) # cs'))) =
       or_zero (bearingDelta (combined_of (cs @ cs')))
   \<and> or_zero (bearingDelta (combined_of (cs @ (from\<lparr>bearingDelta := Some 0\<rparr>, ep, d) # cs'))) =
       or_zero (bearingDelta (combined_of (cs @ cs')))"
  by (simp add: merge_snd_map_of owner_def combined_zoomDelta combined_pitchDelta
      combined_bearingDelta combined_pan_value queued_append queued_Cons sum_pts_append)

theorem absent_versus_explicit_zero_witness:
  "map_of (snd (mergeHandlerResult (empty_result\<lparr>needsRenderFrame := Some False\<rparr>) []
       (Some (empty_result\<lparr>around := Some (Val (1, 1)), zoomDelta := None\<rparr>)) ''scrollZoom'' None)) Zoom
     = None
   \<and> map_of (snd (mergeHandlerResult (empty_result\<lparr>needsRenderFrame := Some False\<rparr>) []
       (Some (empty_result\<lparr>around := Some (Val (1, 1)), zoomDelta := Some 0\<rparr>)) ''scrollZoom'' None)) Zoom
     = Some \<lparr>handlerName = ''scrollZoom'', origEvent = None\<rparr>
   \<and> or_zero (zoomDelta (combined_of
       ([(empty_result\<lparr>zoomDelta := Some 2\<rparr>, [], [])]
        @ (empty_result\<lparr>around := Some (Val (1, 1)), zoomDelta := None\<rparr>, [], []) # []))) = 2
   \<and> or_zero (zoomDelta (combined_of
       ([(empty_result\<lparr>zoomDelta := Some 2\<rparr>, [], [])]
        @ (empty_result\<lparr>around := Some (Val (1, 1)), zoomDelta := Some 0\<rparr>, [], []) # []))) = 2"
  using absent_versus_explicit_zero [where into = "empty_result\<lparr>needsRenderFrame := Some False\<rparr>"
      and eip = "[]" and ?from = "empty_result\<lparr>around := Some (Val (1, 1))\<rparr>"
      and name = "''scrollZoom''" and e = None
      and cs = "[(empty_result\<lparr>zoomDelta := Some 2\<rparr>, [], [])]" and ep = "[]" and d = "[]"
      and cs' = "[]"]
  by (simp add: owner_def empty_result_def combined_of_def combine_result_def or_zero_def
      or_origin_def truthy_flag_def)


subsection \<open>Lifecycle events and the bearing snap\<close>

lemma category_fire_simps [simp]:
  "category_fire (Fire (category_name c @ ''start'') e)"
  "category_fire (Fire (category_name c) e)"
  "category_fire (Fire (category_name c @ ''end'') e)"
  "category_fire (Fire ''move'' e)"
  by (cases c; simp add: category_fire_def lifecycle_names_def)+

lemma startLoop_shape:
  "\<exists>xs. startLoop new st =
      st\<lparr>eventsInProgress := extend_obj (eventsInProgress st) new, calls := calls st @ xs\<rparr>
    \<and> list_all category_fire xs"
proof (induction new arbitrary: st)
  case Nil
  show ?case by (rule exI [of _ "[]"]) simp
next
  case (Cons a new)
  obtain eventName d where a: "a = (eventName, d)" by (cases a)
  show ?case
  proof (cases "map_of (eventsInProgress st) eventName = None")
    case True
    let ?st1 = "fireEvent (category_name eventName @ ''start'') (origEvent d)
        (st\<lparr>eventsInProgress := AList.update eventName d (eventsInProgress st)\<rparr>)"
    from Cons.IH [of ?st1] obtain xs where
      "startLoop new ?st1 = ?st1\<lparr>eventsInProgress := extend_obj (eventsInProgress ?st1) new,
          calls := calls ?st1 @ xs\<rparr>" and "list_all category_fire xs" by blast
    then show ?thesis using True a
      by (intro exI [of _ "Fire (category_name eventName @ ''start'') (origEvent d) # xs"])
        (simp add: fireEvent_def map_calls_def Let_def)
  next
    case False
    let ?st1 = "st\<lparr>eventsInProgress := AList.update eventName d (eventsInProgress st)\<rparr>"
    from Cons.IH [of ?st1] obtain xs where
      "startLoop new ?st1 = ?st1\<lparr>eventsInProgress := extend_obj (eventsInProgress ?st1) new,
          calls := calls ?st1 @ xs\<rparr>" and "list_all category_fire xs" by blast
    then show ?thesis using False a
      by (intro exI [of _ xs]) (auto simp add: Let_def)
  qed
qed

lemma changeLoop_shape:
  "\<exists>xs. changeLoop new st = st\<lparr>calls := calls st @ xs\<rparr> \<and> list_all category_fire xs"
proof (induction new arbitrary: st)
  case Nil
  show ?case by (rule exI [of _ "[]"]) simp
next
  case (Cons a new)
  obtain eventName d where a: "a = (eventName, d)" by (cases a)
  let ?st1 = "fireEvent (category_name eventName) (origEvent d) st"
  from Cons.IH [of ?st1] obtain xs where
    "changeLoop new ?st1 = ?st1\<lparr>calls := calls ?st1 @ xs\<rparr>" and "list_all category_fire xs"
    by blast
  then show ?case using a
    by (intro exI [of _ "Fire (category_name eventName) (origEvent d) # xs"])
      (simp add: fireEvent_def map_calls_def)
qed

lemma endLoop_shape:
  "\<exists>xs ep. snd (endLoop H es deact oee st) =
       st\<lparr>eventsInProgress := ep, calls := calls st @ xs\<rparr>
    \<and> list_all category_fire xs"
proof (induction es arbitrary: st oee)
  case Nil
  show ?case by (rule exI [of _ "[]"], rule exI [of _ "eventsInProgress st"]) simp
next
  case (Cons a es)
  obtain eventName d where a: "a = (eventName, d)" by (cases a)
  show ?case
  proof (cases "isActive H (handlersById st (handlerName d))")
    case True
    with Cons.IH [of oee st] a show ?thesis by simp
  next
    case False
    define endEvent where "endEvent = (case map_of deact (handlerName d) of
        Some (Some ev) \<Rightarrow> Some ev | _ \<Rightarrow> origEvent d)"
    let ?st1 = "fireEvent (category_name eventName @ ''end'') endEvent
        (st\<lparr>eventsInProgress := AList.delete eventName (eventsInProgress st)\<rparr>)"
    from Cons.IH [of endEvent ?st1] obtain xs ep where
      "snd (endLoop H es deact endEvent ?st1) =
          ?st1\<lparr>eventsInProgress := ep, calls := calls ?st1 @ xs\<rparr>"
      and "list_all category_fire xs" by blast
    then show ?thesis using False a
      by (intro exI [of _ "Fire (category_name eventName @ ''end'') endEvent # xs"] exI [of _ ep])
        (simp add: fireEvent_def map_calls_def endEvent_def Let_def)
  qed
qed

lemma fireEvents_shape:
  obtains xs ep bc oee where
    "list_all category_fire xs"
    "fireEvents H I T new deact st =
       (if (moving (eventsInProgress st) \<or> moving new) \<and> \<not> moving ep
        then gestureEnd I T oee
               (st\<lparr>eventsInProgress := ep, bearingChanged := bc,
                   calls := calls st @ startCalls (eventsInProgress st) new @ xs\<rparr>)
        else st\<lparr>eventsInProgress := ep, bearingChanged := bc,
                 calls := calls st @ startCalls (eventsInProgress st) new @ xs\<rparr>)"
proof -
  define st1 where "st1 = st\<lparr>calls := calls st @ startCalls (eventsInProgress st) new\<rparr>"
  have s1: "(case isMoving new of
       Some d \<Rightarrow> if isMoving (eventsInProgress st) = None
                 then fireEvent ''movestart'' (origEvent d) st else st
     | None \<Rightarrow> st) = st1"
    by (simp add: st1_def startCalls_def fireEvent_def map_calls_def split: option.splits)
  obtain xs1 where x1: "list_all category_fire xs1"
    and s2: "startLoop new st1 =
      st1\<lparr>eventsInProgress := extend_obj (eventsInProgress st1) new, calls := calls st1 @ xs1\<rparr>"
    using startLoop_shape [of new st1] by blast
  define bc where "bc = (if map_of new Rotate \<noteq> None then True else bearingChanged st)"
  define mv where "mv = (case isMoving new of Some d \<Rightarrow> [Fire ''move'' (origEvent d)] | None \<Rightarrow> [])"
  define st4 where "st4 = st\<lparr>eventsInProgress := extend_obj (eventsInProgress st) new,
      bearingChanged := bc,
      calls := calls st @ startCalls (eventsInProgress st) new @ xs1 @ mv\<rparr>"
  have s4: "(case isMoving new of
       Some d \<Rightarrow> fireEvent ''move'' (origEvent d)
          (if map_of new Rotate \<noteq> None then (startLoop new st1)\<lparr>bearingChanged := True\<rparr>
           else startLoop new st1)
     | None \<Rightarrow> (if map_of new Rotate \<noteq> None then (startLoop new st1)\<lparr>bearingChanged := True\<rparr>
           else startLoop new st1)) = st4"
    unfolding s2
    by (simp add: st4_def st1_def bc_def mv_def fireEvent_def map_calls_def split: option.splits)
  have mvP: "list_all category_fire mv"
    by (simp add: mv_def split: option.splits)
  obtain xs2 where x2: "list_all category_fire xs2"
    and s5: "changeLoop new st4 = st4\<lparr>calls := calls st4 @ xs2\<rparr>"
    using changeLoop_shape [of new st4] by blast
  define st5 where "st5 = st4\<lparr>calls := calls st4 @ xs2\<rparr>"
  obtain xs3 ep where x3: "list_all category_fire xs3"
    and s6: "snd (endLoop H (eventsInProgress st5) deact None st5) =
      st5\<lparr>eventsInProgress := ep, calls := calls st5 @ xs3\<rparr>"
    using endLoop_shape [of H "eventsInProgress st5" deact None st5] by blast
  have final: "st5\<lparr>eventsInProgress := ep, calls := calls st5 @ xs3\<rparr> =
      st\<lparr>eventsInProgress := ep, bearingChanged := bc,
         calls := calls st @ startCalls (eventsInProgress st) new @ (xs1 @ mv @ xs2 @ xs3)\<rparr>"
    by (simp add: st5_def st4_def)
  have all: "list_all category_fire (xs1 @ mv @ xs2 @ xs3)"
    using x1 mvP x2 x3 by simp
  have "fireEvents H I T new deact st =
       (if (moving (eventsInProgress st) \<or> moving new) \<and> \<not> moving ep
        then gestureEnd I T (fst (endLoop H (eventsInProgress st5) deact None st5))
               (st\<lparr>eventsInProgress := ep, bearingChanged := bc,
                   calls := calls st @ startCalls (eventsInProgress st) new @ (xs1 @ mv @ xs2 @ xs3)\<rparr>)
        else st\<lparr>eventsInProgress := ep, bearingChanged := bc,
                 calls := calls st @ startCalls (eventsInProgress st) new @ (xs1 @ mv @ xs2 @ xs3)\<rparr>)"
    unfolding fireEvents_def Let_def s1 s4 s5 st5_def [symmetric] s6 final
    by (simp add: moving_def)
  with all that show thesis by blast
qed

lemma moving_iff: "moving p \<longleftrightarrow> p \<noteq> []"
proof (cases p)
  case Nil
  then show ?thesis by (simp add: moving_def isMoving_def)
next
  case (Cons a q)
  obtain k v where "a = (k, v)" by (cases a)
  with Cons show ?thesis
    by (cases k) (simp_all add: moving_def isMoving_def split: option.splits)
qed

lemma extend_obj_Nil_iff: "extend_obj old new = [] \<longleftrightarrow> old = [] \<and> new = []"
proof (induction new arbitrary: old)
  case Nil
  show ?case by simp
next
  case (Cons a new)
  obtain k v where a: "a = (k, v)" by (cases a)
  have "extend_obj (AList.update k v old) new \<noteq> []"
    using Cons.IH [of "AList.update k v old"] by simp
  with a show ?case by simp
qed

lemma moving_extend_obj: "moving (extend_obj old new) \<longleftrightarrow> moving old \<or> moving new"
  by (simp add: moving_iff extend_obj_Nil_iff)

lemma afterMerge_eq: "afterMerge new st = extend_obj (eventsInProgress st) new"
  using startLoop_shape [of new st] by (auto simp: afterMerge_def)

lemma not_category_fire:
  "category_fire c \<Longrightarrow> \<not> is_movestart c \<and> \<not> is_gesture_end c \<and> c \<noteq> ResetNorth
     \<and> easeTargets [c] = []"
  by (cases c) (auto simp: category_fire_def lifecycle_names_def is_movestart_def is_gesture_end_def)

lemma filter_category_fire:
  "list_all category_fire xs \<Longrightarrow>
     filter is_movestart xs = [] \<and> filter is_gesture_end xs = []
     \<and> filter (\<lambda>c. c = ResetNorth) xs = [] \<and> easeTargets xs = []"
proof (induction xs)
  case Nil
  show ?case by simp
next
  case (Cons c xs)
  then have "category_fire c" and "list_all category_fire xs" by simp_all
  with Cons.IH not_category_fire [of c] show ?case
    by (cases c) simp_all
qed

lemma easeTargets_append: "easeTargets (xs @ ys) = easeTargets xs @ easeTargets ys"
  by (induction xs rule: easeTargets.induct) simp_all

lemma startCalls_counts:
  "length (filter is_movestart (startCalls old new)) = (if \<not> moving old \<and> moving new then 1 else 0)
   \<and> filter is_gesture_end (startCalls old new) = []
   \<and> filter (\<lambda>c. c = ResetNorth) (startCalls old new) = []
   \<and> easeTargets (startCalls old new) = []"
  by (simp add: startCalls_def moving_def is_movestart_def is_gesture_end_def split: option.splits)

lemma shouldSnapToNorth_iff: "shouldSnapToNorth snap b \<longleftrightarrow> 0 < \<bar>b\<bar> \<and> \<bar>b\<bar> < snap"
  by (auto simp: shouldSnapToNorth_def)

lemma snapInertialEase_eq:
  "snapInertialEase snap gb ease =
   (if 0 < \<bar>case bearing ease of Some b \<Rightarrow> b | None \<Rightarrow> gb\<bar>
        \<and> \<bar>case bearing ease of Some b \<Rightarrow> b | None \<Rightarrow> gb\<bar> < snap
    then ease\<lparr>bearing := Some 0\<rparr> else ease)"
proof (cases "bearing ease")
  case None
  then show ?thesis
    by (simp add: snapInertialEase_def shouldSnapToNorth_iff truthy_def)
next
  case (Some b)
  show ?thesis
  proof (cases "b = 0")
    case True
    with Some have "ease\<lparr>bearing := Some 0\<rparr> = ease" by simp
    with Some True show ?thesis
      by (simp add: snapInertialEase_def shouldSnapToNorth_iff truthy_def)
  next
    case False
    with Some show ?thesis
      by (simp add: snapInertialEase_def shouldSnapToNorth_iff truthy_def or_zero_def)
  qed
qed

lemma gestureEnd_shape:
  "gestureEnd I T oee st =
     st\<lparr>inertia := snd (onMoveEnd I (inertia st)), updatingCamera := False,
        bearingChanged := False, calls := calls st @ endCalls I T oee st\<rparr>"
proof (cases "fst (onMoveEnd I (inertia st))")
  case None
  then show ?thesis
    by (simp add: gestureEnd_def Let_def endCalls_def finalBearing_def map_calls_def
      shouldSnapToNorth_iff)
next
  case (Some ease)
  then show ?thesis
    by (simp add: gestureEnd_def Let_def endCalls_def finalBearing_def map_calls_def
      snapInertialEase_eq)
qed

lemma endCalls_cong:
  "inertia st' = inertia st \<Longrightarrow> transform st' = transform st \<Longrightarrow> bearingSnap st' = bearingSnap st
     \<Longrightarrow> endCalls I T oee st' = endCalls I T oee st"
proof -
  assume a: "inertia st' = inertia st" "transform st' = transform st"
    "bearingSnap st' = bearingSnap st"
  then have "finalBearing I T st' = finalBearing I T st"
    by (simp add: finalBearing_def split: option.splits)
  with a show ?thesis
    by (simp add: endCalls_def split: option.splits)
qed

lemma fireEvents_calls:
  "\<exists>xs oee. list_all category_fire xs
     \<and> calls (fireEvents H I T new deact st) =
         calls st @ startCalls (eventsInProgress st) new @ xs @
           (if (moving (eventsInProgress st) \<or> moving new)
               \<and> \<not> moving (eventsInProgress (fireEvents H I T new deact st))
            then endCalls I T oee st else [])"
proof -
  obtain xs ep bc oee where xs: "list_all category_fire xs"
    and eq: "fireEvents H I T new deact st =
       (if (moving (eventsInProgress st) \<or> moving new) \<and> \<not> moving ep
        then gestureEnd I T oee
               (st\<lparr>eventsInProgress := ep, bearingChanged := bc,
                   calls := calls st @ startCalls (eventsInProgress st) new @ xs\<rparr>)
        else st\<lparr>eventsInProgress := ep, bearingChanged := bc,
                 calls := calls st @ startCalls (eventsInProgress st) new @ xs\<rparr>)"
    by (rule fireEvents_shape)
  let ?mid = "st\<lparr>eventsInProgress := ep, bearingChanged := bc,
      calls := calls st @ startCalls (eventsInProgress st) new @ xs\<rparr>"
  have ep: "eventsInProgress (fireEvents H I T new deact st) = ep"
    unfolding eq by (simp add: gestureEnd_shape)
  have ec: "endCalls I T oee ?mid = endCalls I T oee st"
    by (rule endCalls_cong) simp_all
  have "calls (fireEvents H I T new deact st) =
         calls st @ startCalls (eventsInProgress st) new @ xs @
           (if (moving (eventsInProgress st) \<or> moving new) \<and> \<not> moving ep
            then endCalls I T oee st else [])"
    unfolding eq by (simp add: gestureEnd_shape ec)
  with xs ep show ?thesis by blast
qed

lemma endCalls_counts:
  "filter is_movestart (endCalls I T oee st) = []
   \<and> length (filter is_gesture_end (endCalls I T oee st)) = 1
   \<and> easeTargets (endCalls I T oee st) =
       (case fst (onMoveEnd I (inertia st)) of
          Some ease \<Rightarrow>
            [if 0 < \<bar>finalBearing I T st\<bar> \<and> \<bar>finalBearing I T st\<bar> < bearingSnap st
             then ease\<lparr>bearing := Some 0\<rparr> else ease]
        | None \<Rightarrow> [])
   \<and> length (filter (\<lambda>c. c = ResetNorth) (endCalls I T oee st)) =
       (if fst (onMoveEnd I (inertia st)) = None
           \<and> 0 < \<bar>finalBearing I T st\<bar> \<and> \<bar>finalBearing I T st\<bar> < bearingSnap st
        then 1 else 0)"
  by (cases "fst (onMoveEnd I (inertia st))")
    (simp_all add: endCalls_def is_movestart_def is_gesture_end_def)

lemma fireEvents_counts:
  "movestarts (fireEvents H I T new deact st) =
     movestarts st + (if \<not> moving (eventsInProgress st) \<and> moving (afterMerge new st) then 1 else 0)
   \<and> gestureEnds (fireEvents H I T new deact st) =
     gestureEnds st +
       (if moving (afterMerge new st)
           \<and> \<not> moving (eventsInProgress (fireEvents H I T new deact st)) then 1 else 0)"
proof -
  obtain xs oee where xs: "list_all category_fire xs"
    and c: "calls (fireEvents H I T new deact st) =
         calls st @ startCalls (eventsInProgress st) new @ xs @
           (if (moving (eventsInProgress st) \<or> moving new)
               \<and> \<not> moving (eventsInProgress (fireEvents H I T new deact st))
            then endCalls I T oee st else [])"
    using fireEvents_calls [of H I T new deact st] by blast
  note f = filter_category_fire [OF xs] startCalls_counts [of "eventsInProgress st" new]
    endCalls_counts [of I T oee st]
  have m: "moving (afterMerge new st) \<longleftrightarrow> moving (eventsInProgress st) \<or> moving new"
    by (simp add: afterMerge_eq moving_extend_obj)
  show ?thesis
    unfolding movestarts_def gestureEnds_def c m using f by auto
qed

text \<open>
  Claim C5. Over every sequence of calls of \<^verbatim>\<open>_fireEvents\<close>, the number of \<^verbatim>\<open>movestart\<close>
  events fired is the number of transitions of the persistent map from not moving to
  moving, and the number of \<^verbatim>\<open>moveend\<close> events and inertial \<^verbatim>\<open>easeTo\<close> calls together is
  the number of transitions back to not moving.
\<close>

theorem lifecycle_transitions:
  "movestarts (fireEventsSeq H I T cs st) = movestarts st + startTransitions H I T cs st
   \<and> gestureEnds (fireEventsSeq H I T cs st) = gestureEnds st + endTransitions H I T cs st"
proof (induction cs arbitrary: st)
  case Nil
  show ?case by simp
next
  case (Cons c cs)
  obtain new deact hs where c: "c = (new, deact, hs)" by (cases c)
  let ?st = "st\<lparr>handlersById := hs\<rparr>"
  have e: "eventsInProgress ?st = eventsInProgress st" "movestarts ?st = movestarts st"
    "gestureEnds ?st = gestureEnds st" "afterMerge new ?st = afterMerge new st"
    by (simp_all add: movestarts_def gestureEnds_def afterMerge_eq)
  from fireEvents_counts [of H I T new deact ?st] Cons.IH [of "fireEvents H I T new deact ?st"]
  show ?case
    unfolding c e by simp
qed

text \<open>
  Claim C7. A call of \<^verbatim>\<open>_fireEvents\<close> hands a target to \<^verbatim>\<open>easeTo\<close>, or calls
  \<^verbatim>\<open>resetNorth\<close>, only when it ends a gesture. With an inertial ease, the target is the
  ease with its bearing set to \<open>0\<close> when the final bearing \<open>b\<close> has
  \<open>0 < \<bar>b\<bar> < bearingSnap\<close>, and the ease as it is otherwise; with none, \<^verbatim>\<open>resetNorth\<close>
  is called once when \<open>0 < \<bar>b\<bar> < bearingSnap\<close> and not at all otherwise.
\<close>

theorem bearing_snap:
  "easeTargets (calls (fireEvents H I T new deact st)) =
     easeTargets (calls st) @
       (if moving (afterMerge new st) \<and> \<not> moving (eventsInProgress (fireEvents H I T new deact st))
        then (case fst (onMoveEnd I (inertia st)) of
                Some ease \<Rightarrow>
                  [if 0 < \<bar>finalBearing I T st\<bar> \<and> \<bar>finalBearing I T st\<bar> < bearingSnap st
                   then ease\<lparr>bearing := Some 0\<rparr> else ease]
              | None \<Rightarrow> [])
        else [])
   \<and> resetNorths (calls (fireEvents H I T new deact st)) =
     resetNorths (calls st) +
       (if moving (afterMerge new st) \<and> \<not> moving (eventsInProgress (fireEvents H I T new deact st))
           \<and> fst (onMoveEnd I (inertia st)) = None
           \<and> 0 < \<bar>finalBearing I T st\<bar> \<and> \<bar>finalBearing I T st\<bar> < bearingSnap st
        then 1 else 0)"
proof -
  obtain xs oee where xs: "list_all category_fire xs"
    and c: "calls (fireEvents H I T new deact st) =
         calls st @ startCalls (eventsInProgress st) new @ xs @
           (if (moving (eventsInProgress st) \<or> moving new)
               \<and> \<not> moving (eventsInProgress (fireEvents H I T new deact st))
            then endCalls I T oee st else [])"
    using fireEvents_calls [of H I T new deact st] by blast
  note f = filter_category_fire [OF xs] startCalls_counts [of "eventsInProgress st" new]
    endCalls_counts [of I T oee st]
  have m: "moving (afterMerge new st) \<longleftrightarrow> moving (eventsInProgress st) \<or> moving new"
    by (simp add: afterMerge_eq moving_extend_obj)
  show ?thesis
    unfolding resetNorths_def c m using f by (auto simp: easeTargets_append)
qed

lemmas example_defs = example_handlers_def example_inertia_def example_transform_def
  example_manager_def

lemmas fire_defs = fireEvents_def gestureEnd_def fireEvent_def map_calls_def isMoving_def
  shouldSnapToNorth_def snapInertialEase_def Let_def

theorem lifecycle_transitions_witness:
  "movestarts (fireEventsSeq example_handlers example_inertia example_transform
      [([(Drag, \<lparr>handlerName = ''mousePan'', origEvent = None\<rparr>)], [], \<lambda>name. True),
       ([(Drag, \<lparr>handlerName = ''mousePan'', origEvent = None\<rparr>)], [], \<lambda>name. True),
       ([], [], \<lambda>name. False)] example_manager) = 1
   \<and> gestureEnds (fireEventsSeq example_handlers example_inertia example_transform
      [([(Drag, \<lparr>handlerName = ''mousePan'', origEvent = None\<rparr>)], [], \<lambda>name. True),
       ([(Drag, \<lparr>handlerName = ''mousePan'', origEvent = None\<rparr>)], [], \<lambda>name. True),
       ([], [], \<lambda>name. False)] example_manager) = 1"
  using lifecycle_transitions [of example_handlers example_inertia example_transform
      "[([(Drag, \<lparr>handlerName = ''mousePan'', origEvent = None\<rparr>)], [], \<lambda>name. True),
       ([(Drag, \<lparr>handlerName = ''mousePan'', origEvent = None\<rparr>)], [], \<lambda>name. True),
       ([], [], \<lambda>name. False)]" example_manager]
  by (simp add: example_defs fire_defs moving_def afterMerge_def movestarts_def gestureEnds_def)

theorem bearing_snap_witness:
  "resetNorths (calls (fireEvents example_handlers example_inertia example_transform [] []
      (example_manager\<lparr>eventsInProgress := [(Rotate, \<lparr>handlerName = ''mouseRotate'', origEvent = None\<rparr>)]\<rparr>)))
     = 1
   \<and> easeTargets (calls (fireEvents example_handlers example_inertia example_transform [] []
      (example_manager\<lparr>eventsInProgress := [(Rotate, \<lparr>handlerName = ''mouseRotate'', origEvent = None\<rparr>)],
         inertia := Some \<lparr>bearing = Some 5, easing = 0\<rparr>\<rparr>)))
     = [\<lparr>bearing = Some 0, easing = 0\<rparr>]
   \<and> easeTargets (calls (fireEvents example_handlers example_inertia example_transform [] []
      (example_manager\<lparr>eventsInProgress := [(Rotate, \<lparr>handlerName = ''mouseRotate'', origEvent = None\<rparr>)],
         inertia := Some \<lparr>bearing = Some 9, easing = 0\<rparr>\<rparr>)))
     = [\<lparr>bearing = Some 9, easing = 0\<rparr>]"
  using bearing_snap [of example_handlers example_inertia example_transform "[]" "[]"
      "example_manager\<lparr>eventsInProgress := [(Rotate, \<lparr>handlerName = ''mouseRotate'', origEvent = None\<rparr>)]\<rparr>"]
    bearing_snap [of example_handlers example_inertia example_transform "[]" "[]"
      "example_manager\<lparr>eventsInProgress := [(Rotate, \<lparr>handlerName = ''mouseRotate'', origEvent = None\<rparr>)],
         inertia := Some \<lparr>bearing = Some 5, easing = 0\<rparr>\<rparr>"]
    bearing_snap [of example_handlers example_inertia example_transform "[]" "[]"
      "example_manager\<lparr>eventsInProgress := [(Rotate, \<lparr>handlerName = ''mouseRotate'', origEvent = None\<rparr>)],
         inertia := Some \<lparr>bearing = Some 9, easing = 0\<rparr>\<rparr>"]
  by (simp add: example_defs fire_defs moving_def afterMerge_def resetNorths_def finalBearing_def)

subsection \<open>The anchor of an update\<close>

lemma fireEvents_fields:
  "transform (fireEvents H I T new deact st) = transform st
   \<and> frameId (fireEvents H I T new deact st) = frameId st
   \<and> frameRequests (fireEvents H I T new deact st) = frameRequests st
   \<and> nextFrameId (fireEvents H I T new deact st) = nextFrameId st
   \<and> handlers (fireEvents H I T new deact st) = handlers st
   \<and> handlersById (fireEvents H I T new deact st) = handlersById st
   \<and> changes (fireEvents H I T new deact st) = changes st
   \<and> previousActiveHandlers (fireEvents H I T new deact st) = previousActiveHandlers st
   \<and> bearingSnap (fireEvents H I T new deact st) = bearingSnap st"
proof -
  obtain xs ep bc oee where
    eq: "fireEvents H I T new deact st =
       (if (moving (eventsInProgress st) \<or> moving new) \<and> \<not> moving ep
        then gestureEnd I T oee
               (st\<lparr>eventsInProgress := ep, bearingChanged := bc,
                   calls := calls st @ startCalls (eventsInProgress st) new @ xs\<rparr>)
        else st\<lparr>eventsInProgress := ep, bearingChanged := bc,
                 calls := calls st @ startCalls (eventsInProgress st) new @ xs\<rparr>)"
    by (rule fireEvents_shape)
  show ?thesis unfolding eq by (simp add: gestureEnd_shape)
qed

lemma updateMapTransform_transform:
  "transform (updateMapTransform H I T c e d st) =
     (if hasChange c then moveTransform T c (transform st) else transform st)"
  by (simp add: updateMapTransform_def Let_def fireEvents_fields map_calls_def)

lemma applyChanges_transform:
  "transform (applyChanges H I T st) =
     (if hasChange (combined_of (changes st))
      then moveTransform T (combined_of (changes st)) (transform st) else transform st)"
  by (simp add: applyChanges_def Let_def updateMapTransform_transform combined_of_def)

lemma moveTransform_anchor:
  assumes "\<forall>tr l p. pointLocation T (setLocationAtPoint T l p tr) p = l"
  shows "pointLocation T (moveTransform T c tr) (anchor T c tr) =
     pointLocation T tr
       (case panDelta c of Some d \<Rightarrow> sub_pt (anchor T c tr) d | None \<Rightarrow> anchor T c tr)"
  unfolding moveTransform_def Let_def using assms by blast

lemma mag_zero_iff: "mag p = 0 \<longleftrightarrow> p = (0, 0)"
  by (cases p) (simp add: mag_def power2_eq_square [symmetric])

lemma no_change_pan:
  "\<not> hasChange c \<Longrightarrow>
     (case panDelta c of Some d \<Rightarrow> sub_pt a d | None \<Rightarrow> a) = a"
  by (cases "panDelta c") (simp_all add: hasChange_def mag_zero_iff sub_pt_def)

lemma updateMapTransform_anchor:
  assumes "\<forall>tr l p. pointLocation T (setLocationAtPoint T l p tr) p = l"
  shows "pointLocation T (transform (updateMapTransform H I T c e d st)) (anchor T c (transform st)) =
       pointLocation T (transform st)
         (case panDelta c of
            Some delta \<Rightarrow> sub_pt (anchor T c (transform st)) delta
          | None \<Rightarrow> anchor T c (transform st))"
  using moveTransform_anchor [OF assms] no_change_pan
  by (simp add: updateMapTransform_transform)

lemma applyChanges_updateMapTransform:
  "transform (applyChanges H I T st) =
     transform (updateMapTransform H I T (combined_of (changes st)) [] [] st)"
  by (simp add: applyChanges_transform updateMapTransform_transform)

lemma panned_from_eq:
  "panned_from c p = (case panDelta c of Some delta \<Rightarrow> sub_pt p delta | None \<Rightarrow> p)"
  by (simp add: panned_from_def sub_pt_def split: option.splits)

lemma anchor_pinch: "pinchAround c = Some (Val q) \<Longrightarrow> anchor T c tr = q"
  by (simp add: anchor_def)

lemma anchor_around: "pinchAround c = None \<Longrightarrow> around c = Some (Val p) \<Longrightarrow> anchor T c tr = p"
  by (simp add: anchor_def)

lemma anchor_centre:
  "pinchAround c = Some Null \<or> pinchAround c = None \<and> (around c = None \<or> around c = Some Null)
     \<Longrightarrow> anchor T c tr = centerPoint T tr"
  by (auto simp add: anchor_def)

lemma updateMapTransform_anchor_cases:
  assumes "\<forall>tr l p. pointLocation T (setLocationAtPoint T l p tr) p = l"
  shows "(pinchAround c = Some (Val q) \<longrightarrow>
        pointLocation T (transform (updateMapTransform H I T c e d st)) q =
          pointLocation T (transform st) (panned_from c q))
     \<and> (pinchAround c = None \<and> around c = Some (Val p) \<longrightarrow>
        pointLocation T (transform (updateMapTransform H I T c e d st)) p =
          pointLocation T (transform st) (panned_from c p))
     \<and> (pinchAround c = Some Null
          \<or> pinchAround c = None \<and> (around c = None \<or> around c = Some Null) \<longrightarrow>
        pointLocation T (transform (updateMapTransform H I T c e d st))
            (centerPoint T (transform st)) =
          pointLocation T (transform st) (panned_from c (centerPoint T (transform st))))"
proof (intro conjI impI)
  assume "pinchAround c = Some (Val q)"
  then have "anchor T c (transform st) = q" by (rule anchor_pinch)
  with updateMapTransform_anchor [OF assms, of H I c e d st]
  show "pointLocation T (transform (updateMapTransform H I T c e d st)) q =
      pointLocation T (transform st) (panned_from c q)"
    by (simp add: panned_from_eq cong: option.case_cong)
next
  assume "pinchAround c = None \<and> around c = Some (Val p)"
  then have "anchor T c (transform st) = p" by (simp add: anchor_around)
  with updateMapTransform_anchor [OF assms, of H I c e d st]
  show "pointLocation T (transform (updateMapTransform H I T c e d st)) p =
      pointLocation T (transform st) (panned_from c p)"
    by (simp add: panned_from_eq cong: option.case_cong)
next
  assume "pinchAround c = Some Null
      \<or> pinchAround c = None \<and> (around c = None \<or> around c = Some Null)"
  then have "anchor T c (transform st) = centerPoint T (transform st)" by (rule anchor_centre)
  with updateMapTransform_anchor [OF assms, of H I c e d st]
  show "pointLocation T (transform (updateMapTransform H I T c e d st))
        (centerPoint T (transform st)) =
      pointLocation T (transform st) (panned_from c (centerPoint T (transform st)))"
    by (simp add: panned_from_eq cong: option.case_cong)
qed

text \<open>
  Claim C1. Given that \<^verbatim>\<open>pointLocation\<close> and \<^verbatim>\<open>setLocationAtPoint\<close> are inverse to each
  other, every call of \<^verbatim>\<open>_updateMapTransform\<close>, and so every flush, keeps the anchor of
  its combined result. When the result carries a pinch anchor \<open>q\<close>, the location under
  \<open>q\<close> after the update is the location that was under \<open>q\<close> before it, and with a pan
  delta \<open>d\<close> the location that was under \<open>q - d\<close>, whatever anchor the result names
  besides. When it carries no pinch anchor and an anchor \<open>p\<close>, the same holds of \<open>p\<close>.
  When the pinch anchor is \<^verbatim>\<open>null\<close>, or is missing with the anchor \<^verbatim>\<open>null\<close> or missing too,
  it holds of the centre of the viewport.
\<close>

theorem anchor_preserved:
  assumes "\<forall>tr l p. pointLocation T (setLocationAtPoint T l p tr) p = l"
  shows "(pinchAround c = Some (Val q) \<longrightarrow>
        pointLocation T (transform (updateMapTransform H I T c e d st)) q =
          pointLocation T (transform st) (panned_from c q))
     \<and> (pinchAround c = None \<and> around c = Some (Val p) \<longrightarrow>
        pointLocation T (transform (updateMapTransform H I T c e d st)) p =
          pointLocation T (transform st) (panned_from c p))
     \<and> (pinchAround c = Some Null
          \<or> pinchAround c = None \<and> (around c = None \<or> around c = Some Null) \<longrightarrow>
        pointLocation T (transform (updateMapTransform H I T c e d st))
            (centerPoint T (transform st)) =
          pointLocation T (transform st) (panned_from c (centerPoint T (transform st))))
     \<and> (pinchAround (combined_of (changes st)) = Some (Val q) \<longrightarrow>
        pointLocation T (transform (applyChanges H I T st)) q =
          pointLocation T (transform st) (panned_from (combined_of (changes st)) q))
     \<and> (pinchAround (combined_of (changes st)) = None
          \<and> around (combined_of (changes st)) = Some (Val p) \<longrightarrow>
        pointLocation T (transform (applyChanges H I T st)) p =
          pointLocation T (transform st) (panned_from (combined_of (changes st)) p))
     \<and> (pinchAround (combined_of (changes st)) = Some Null
          \<or> pinchAround (combined_of (changes st)) = None
             \<and> (around (combined_of (changes st)) = None
                  \<or> around (combined_of (changes st)) = Some Null) \<longrightarrow>
        pointLocation T (transform (applyChanges H I T st)) (centerPoint T (transform st)) =
          pointLocation T (transform st)
            (panned_from (combined_of (changes st)) (centerPoint T (transform st))))"
  using updateMapTransform_anchor_cases [OF assms, of c q H I e d st p]
    updateMapTransform_anchor_cases [OF assms, of "combined_of (changes st)" q H I "[]" "[]" st p]
  unfolding applyChanges_updateMapTransform [of H I T st]
  by blast

lemma example_transform_inverse:
  "\<forall>tr l p. pointLocation example_transform (setLocationAtPoint example_transform l p tr) p = l"
  by (simp add: example_transform_def split_def)

lemma example_combined:
  "combined_of (changes busy_manager) =
     empty_result\<lparr>panDelta := Some (5, 0), zoomDelta := Some 1, around := Some (Val (1, 2))\<rparr>"
  "combined_of (changes pinch_manager) =
     empty_result\<lparr>panDelta := Some (2, 0), zoomDelta := Some 1, around := Some (Val (1, 2)),
       pinchAround := Some (Val (7, 7))\<rparr>"
  "combined_of (changes centre_manager) =
     empty_result\<lparr>zoomDelta := Some 1, bearingDelta := Some 2, around := Some (Val (1, 2)),
       pinchAround := Some Null\<rparr>"
  by (simp_all add: busy_manager_def pinch_manager_def centre_manager_def combined_of_def
      combine_result_def empty_result_def or_origin_def or_zero_def add_pt_def truthy_flag_def)

theorem anchor_preserved_witness:
  "(\<forall>tr l p. pointLocation example_transform (setLocationAtPoint example_transform l p tr) p = l)
   \<and> pointLocation example_transform
        (transform (applyChanges example_handlers example_inertia example_transform busy_manager))
        (1, 2) = (- 4, 2)
   \<and> pointLocation example_transform
        (transform (applyChanges example_handlers example_inertia example_transform pinch_manager))
        (7, 7) = (5, 7)
   \<and> pointLocation example_transform
        (transform (applyChanges example_handlers example_inertia example_transform centre_manager))
        (10, 10) = (10, 10)
   \<and> pointLocation example_transform
        (transform (updateMapTransform example_handlers example_inertia example_transform
           (combined_of (changes pinch_manager)) [] [] pinch_manager))
        (7, 7) = (5, 7)"
proof -
  note inv = example_transform_inverse
  have tr: "transform busy_manager = (3, 0, 1, (0, 0))"
    "transform pinch_manager = (3, 0, 1, (0, 0))"
    "transform centre_manager = (3, 0, 1, (0, 0))"
    by (simp_all add: busy_manager_def pinch_manager_def centre_manager_def example_manager_def)
  have pl: "pointLocation example_transform (3, 0, 1, (0, 0)) x = x" for x
    by (simp add: example_transform_def)
  have cp: "centerPoint example_transform (3, 0, 1, (0, 0)) = (10, 10)"
    by (simp add: example_transform_def)
  from anchor_preserved [OF inv, of "combined_of (changes busy_manager)" "(7, 7)"
      example_handlers example_inertia "[]" "[]" busy_manager "(1, 2)"]
  have b: "pointLocation example_transform
        (transform (applyChanges example_handlers example_inertia example_transform busy_manager))
        (1, 2) = (- 4, 2)"
    by (simp add: example_combined tr pl empty_result_def panned_from_def)
  from anchor_preserved [OF inv, of "combined_of (changes pinch_manager)" "(7, 7)"
      example_handlers example_inertia "[]" "[]" pinch_manager "(1, 2)"]
  have p: "pointLocation example_transform
        (transform (applyChanges example_handlers example_inertia example_transform pinch_manager))
        (7, 7) = (5, 7)
      \<and> pointLocation example_transform
        (transform (updateMapTransform example_handlers example_inertia example_transform
           (combined_of (changes pinch_manager)) [] [] pinch_manager))
        (7, 7) = (5, 7)"
    by (simp add: example_combined tr pl empty_result_def panned_from_def)
  from anchor_preserved [OF inv, of "combined_of (changes centre_manager)" "(7, 7)"
      example_handlers example_inertia "[]" "[]" centre_manager "(1, 2)"]
  have c: "pointLocation example_transform
        (transform (applyChanges example_handlers example_inertia example_transform centre_manager))
        (10, 10) = (10, 10)"
    by (simp add: example_combined tr pl cp empty_result_def panned_from_def)
  from inv b p c show ?thesis by blast
qed

subsection \<open>Frame requests\<close>

lemma triggerRenderFrame_idem: "triggerRenderFrame (triggerRenderFrame st) = triggerRenderFrame st"
  by (simp add: triggerRenderFrame_def map_calls_def)

lemma framed_framed: "framed b1 (framed b2 st) = framed (b1 \<or> b2) st"
  by (simp add: framed_def triggerRenderFrame_idem)

lemma triggerRenderFrame_handlersById:
  "triggerRenderFrame (st\<lparr>handlersById := hs\<rparr>) = (triggerRenderFrame st)\<lparr>handlersById := hs\<rparr>"
  by (simp add: triggerRenderFrame_def map_calls_def)

lemma framed_handlersById:
  "framed b (st\<lparr>handlersById := hs\<rparr>) = (framed b st)\<lparr>handlersById := hs\<rparr>"
  by (simp add: framed_def triggerRenderFrame_handlersById)

lemma framed_fields:
  "transform (framed b st) = transform st"
  "changes (framed b st) = changes st"
  "handlers (framed b st) = handlers st"
  "handlersById (framed b st) = handlersById st"
  "previousActiveHandlers (framed b st) = previousActiveHandlers st"
  "inertia (framed b st) = inertia st"
  "eventsInProgress (framed b st) = eventsInProgress st"
  "updatingCamera (framed b st) = updatingCamera st"
  by (simp_all add: framed_def triggerRenderFrame_def map_calls_def)

lemma invoke_shape:
  "\<exists>data m' ep' b hs.
     invoke H e n ie hname allowed (m, ep, act, st) =
       (data, m', ep', act, (framed b st)\<lparr>handlersById := hs\<rparr>)"
proof (cases "blockedByActive act allowed hname")
  case True
  show ?thesis
    apply (rule exI [of _ None], rule exI [of _ m], rule exI [of _ ep], rule exI [of _ False])
    apply (rule exI [of _ "(handlersById st)(hname := reset H (handlersById st hname))"])
    using True by (simp add: invoke_def framed_def)
next
  case False
  show ?thesis
  proof (cases "handle H (methodName e n) e (handlersById st hname)")
    case None
    show ?thesis
      apply (rule exI [of _ None], rule exI [of _ m], rule exI [of _ ep], rule exI [of _ False])
      apply (rule exI [of _ "handlersById st"])
      using False None by (simp add: invoke_def framed_def)
  next
    case (Some r)
    obtain data handler where r: "r = (data, handler)" by (cases r)
    define b where "b = (case data of Some x \<Rightarrow> truthy_flag (needsRenderFrame x) | None \<Rightarrow> False)"
    have "(case data of
             Some x \<Rightarrow> if truthy_flag (needsRenderFrame x)
                       then triggerRenderFrame (st\<lparr>handlersById := (handlersById st)(hname := handler)\<rparr>)
                       else st\<lparr>handlersById := (handlersById st)(hname := handler)\<rparr>
           | None \<Rightarrow> st\<lparr>handlersById := (handlersById st)(hname := handler)\<rparr>) =
          (framed b st)\<lparr>handlersById := (handlersById st)(hname := handler)\<rparr>"
      by (simp add: b_def framed_def triggerRenderFrame_handlersById split: option.splits)
    then show ?thesis
      apply (intro exI [of _ data] exI [of _ "fst (mergeHandlerResult m ep data hname ie)"]
          exI [of _ "snd (mergeHandlerResult m ep data hname ie)"] exI [of _ b]
          exI [of _ "(handlersById st)(hname := handler)"])
      using False Some r by (simp add: invoke_def Let_def)
  qed
qed

lemma dispatchTo_shape:
  "\<exists>m' ep' act' b hs.
     dispatchTo H e n ie reg (m, ep, act, st) = (m', ep', act', (framed b st)\<lparr>handlersById := hs\<rparr>)"
proof -
  obtain hname allowed where reg: "reg = (hname, allowed)" by (cases reg)
  show ?thesis
  proof (cases "isEnabled H (handlersById st hname)")
    case False
    show ?thesis
      apply (intro exI [of _ m] exI [of _ ep] exI [of _ act] exI [of _ False]
          exI [of _ "handlersById st"])
      using False reg by (simp add: dispatchTo_def framed_def)
  next
    case True
    obtain data m' ep' b hs where
      "invoke H e n ie hname allowed (m, ep, act, st) =
         (data, m', ep', act, (framed b st)\<lparr>handlersById := hs\<rparr>)"
      using invoke_shape [of H e n ie hname allowed m ep act st] by blast
    then show ?thesis
      using True reg by (auto simp add: dispatchTo_def)
  qed
qed

lemma dispatchLoop_shape:
  "\<exists>m' ep' act' b hs.
     dispatchLoop H e n ie regs (m, ep, act, st) =
       (m', ep', act', (framed b st)\<lparr>handlersById := hs\<rparr>)"
proof (induction regs arbitrary: m ep act st)
  case Nil
  show ?case
    by (intro exI [of _ m] exI [of _ ep] exI [of _ act] exI [of _ False]
        exI [of _ "handlersById st"]) (simp add: framed_def)
next
  case (Cons reg regs)
  obtain m1 ep1 act1 b1 hs1 where
    s: "dispatchTo H e n ie reg (m, ep, act, st) =
      (m1, ep1, act1, (framed b1 st)\<lparr>handlersById := hs1\<rparr>)"
    using dispatchTo_shape [of H e n ie reg m ep act st] by blast
  obtain m2 ep2 act2 b2 hs2 where
    "dispatchLoop H e n ie regs (m1, ep1, act1, (framed b1 st)\<lparr>handlersById := hs1\<rparr>) =
      (m2, ep2, act2, (framed b2 ((framed b1 st)\<lparr>handlersById := hs1\<rparr>))\<lparr>handlersById := hs2\<rparr>)"
    using Cons.IH [of m1 ep1 act1 "(framed b1 st)\<lparr>handlersById := hs1\<rparr>"] by blast
  then show ?case
    by (intro exI [of _ m2] exI [of _ ep2] exI [of _ act2] exI [of _ "b2 \<or> b1"]
        exI [of _ hs2]) (simp add: s framed_handlersById framed_framed)
qed

lemma frames_eq_iff:
  "frames st' = frames st \<longleftrightarrow>
     frameId st' = frameId st \<and> frameRequests st' = frameRequests st
     \<and> nextFrameId st' = nextFrameId st \<and> requests st' = requests st"
  by (auto simp: frames_def)

lemma frames_framed_cong: "frames st' = frames st \<Longrightarrow> frames (framed b st') = frames (framed b st)"
  by (auto simp: frames_def framed_def triggerRenderFrame_def map_calls_def requests_def)

lemma filter_request_category_fire: "list_all category_fire xs \<Longrightarrow> filter is_request xs = []"
proof (induction xs)
  case Nil
  show ?case by simp
next
  case (Cons c xs)
  then show ?case by (cases c) (simp_all add: category_fire_def is_request_def)
qed

lemma fireEvents_requests: "requests (fireEvents H I T new deact st) = requests st"
proof -
  obtain xs oee where xs: "list_all category_fire xs"
    and c: "calls (fireEvents H I T new deact st) =
         calls st @ startCalls (eventsInProgress st) new @ xs @
           (if (moving (eventsInProgress st) \<or> moving new)
               \<and> \<not> moving (eventsInProgress (fireEvents H I T new deact st))
            then endCalls I T oee st else [])"
    using fireEvents_calls [of H I T new deact st] by blast
  have "filter is_request (startCalls (eventsInProgress st) new) = []"
    by (simp add: startCalls_def is_request_def split: option.splits)
  moreover have "filter is_request (endCalls I T oee st) = []"
    by (simp add: endCalls_def is_request_def split: option.splits)
  ultimately show ?thesis
    unfolding requests_def c using filter_request_category_fire [OF xs] by simp
qed

lemma fireEvents_frames: "frames (fireEvents H I T new deact st) = frames st"
  by (simp add: frames_def fireEvents_fields fireEvents_requests)

lemma frames_updates [simp]:
  "frames (st\<lparr>handlersById := hs\<rparr>) = frames st"
  "frames (st\<lparr>changes := cs\<rparr>) = frames st"
  "frames (st\<lparr>previousActiveHandlers := ps\<rparr>) = frames st"
  "frames (st\<lparr>updatingCamera := u\<rparr>) = frames st"
  "frames (st\<lparr>inertia := i\<rparr>) = frames st"
  "frames (st\<lparr>transform := tr\<rparr>) = frames st"
  "frames (map_calls [StopAnimation] st) = frames st"
  "frames (map_calls [Update] st) = frames st"
  "frames (map_calls [CameraAnimation a] st) = frames st"
  by (simp_all add: frames_def requests_def map_calls_def is_request_def)

lemma frames_trigger_queued:
  "frames (triggerRenderFrame (st\<lparr>previousActiveHandlers := act, changes := cs\<rparr>)) =
     frames (triggerRenderFrame st)"
  using frames_framed_cong [of "st\<lparr>previousActiveHandlers := act, changes := cs\<rparr>" st True]
  by (simp add: framed_def)

lemma afterDispatch_frames:
  "\<exists>b. frames (afterDispatch H I T ie (m, ep, act, st)) = frames (framed b st)"
proof -
  have "frames (afterDispatch H I T ie (m, ep, act, st)) =
      frames (framed (deactivatedLoop (previousActiveHandlers st) act ie [] \<noteq> [] \<or> hasChange m) st)"
    by (cases "cameraAnimation m")
      (simp_all add: afterDispatch_def Let_def fireEvents_frames frames_trigger_queued framed_def)
  then show ?thesis by blast
qed

lemma processInputEvent_frames:
  "\<exists>b. frames (snd (processInputEvent H I T e n st)) = frames (framed b st)"
proof (cases "timeStamp e")
  case None
  then show ?thesis
    by (intro exI [of _ False]) (simp add: processInputEvent_def Let_def framed_def)
next
  case (Some ts)
  let ?ie = "if etype e = ''renderFrame'' then None else Some e"
  let ?st0 = "st\<lparr>updatingCamera := True\<rparr>"
  obtain m ep act b hs where
    d: "dispatchLoop H e n ?ie (handlers ?st0)
          (empty_result\<lparr>needsRenderFrame := Some False\<rparr>, [], [], ?st0) =
        (m, ep, act, (framed b ?st0)\<lparr>handlersById := hs\<rparr>)"
    using dispatchLoop_shape
      [of H e n ?ie "handlers ?st0" "empty_result\<lparr>needsRenderFrame := Some False\<rparr>" "[]" "[]" ?st0]
    by blast
  obtain b' where
    a: "frames (afterDispatch H I T ?ie (m, ep, act, (framed b ?st0)\<lparr>handlersById := hs\<rparr>)) =
        frames (framed b' ((framed b ?st0)\<lparr>handlersById := hs\<rparr>))"
    using afterDispatch_frames by blast
  have "frames (framed b' ((framed b ?st0)\<lparr>handlersById := hs\<rparr>)) = frames (framed (b' \<or> b) st)"
  proof -
    have "frames (framed b' ((framed b ?st0)\<lparr>handlersById := hs\<rparr>)) = frames (framed b' (framed b ?st0))"
      by (rule frames_framed_cong) simp
    also have "\<dots> = frames (framed (b' \<or> b) ?st0)" by (simp add: framed_framed)
    also have "\<dots> = frames (framed (b' \<or> b) st)" by (rule frames_framed_cong) simp
    finally show ?thesis .
  qed
  with a d Some show ?thesis
    unfolding processInputEvent_def Let_def by auto
qed

lemma renderFrameCallback_eq:
  "renderFrameCallback H I T ts st =
     (None, applyChanges H I T
        (snd (processInputEvent H I T \<lparr>etype = ''renderFrame'', timeStamp = Some ts\<rparr> None
           (st\<lparr>frameId := None\<rparr>))))"
  by (simp add: renderFrameCallback_def processInputEvent_def Let_def)

lemma updateMapTransform_frames: "frames (updateMapTransform H I T c e d st) = frames st"
  by (simp add: updateMapTransform_def Let_def fireEvents_frames)

lemma applyChanges_frames: "frames (applyChanges H I T st) = frames st"
  by (simp add: applyChanges_def Let_def updateMapTransform_frames)

lemma resetAll_shape: "\<exists>hs. resetAll H regs st = st\<lparr>handlersById := hs\<rparr>"
proof (induction regs arbitrary: st)
  case Nil
  show ?case by (rule exI [of _ "handlersById st"]) simp
next
  case (Cons reg regs)
  obtain hname allowed where reg: "reg = (hname, allowed)" by (cases reg)
  let ?st = "st\<lparr>handlersById := (handlersById st)(hname := reset H (handlersById st hname))\<rparr>"
  from Cons.IH [of ?st] obtain hs where "resetAll H regs ?st = ?st\<lparr>handlersById := hs\<rparr>" ..
  then show ?case using reg by (intro exI [of _ hs]) simp
qed

lemma stop_frames: "frames (stop H I T st) = frames st"
proof -
  obtain hs where "resetAll H (handlers st) st = st\<lparr>handlersById := hs\<rparr>"
    using resetAll_shape by blast
  then show ?thesis
    by (simp add: stop_def Let_def fireEvents_frames)
qed

lemma coalesced_frames: "frames st' = frames st \<Longrightarrow> coalesced st' = coalesced st"
  by (simp add: frames_def coalesced_def)

lemma coalesced_framed: "coalesced st \<Longrightarrow> coalesced (framed b st)"
  by (auto simp: coalesced_def framed_def triggerRenderFrame_def map_calls_def split: option.splits)

lemma coalesced_processInputEvent:
  "coalesced st \<Longrightarrow> coalesced (snd (processInputEvent H I T e n st))"
  using processInputEvent_frames [of H I T e n st] coalesced_frames coalesced_framed by metis

lemma coalesced_renderFrameCallback:
  assumes "frameRequests st = []"
  shows "coalesced (snd (renderFrameCallback H I T ts st))"
proof -
  have "coalesced (st\<lparr>frameId := None\<rparr>)"
    using assms by (simp add: coalesced_def)
  then have "coalesced (snd (processInputEvent H I T
      \<lparr>etype = ''renderFrame'', timeStamp = Some ts\<rparr> None (st\<lparr>frameId := None\<rparr>)))"
    by (rule coalesced_processInputEvent)
  then show ?thesis
    unfolding renderFrameCallback_eq snd_conv
    using coalesced_frames [OF applyChanges_frames [of H I T]] by blast
qed

lemma coalesced_renderFrame: "coalesced st \<Longrightarrow> coalesced (renderFrame H I T ts st)"
proof (cases "frameRequests st")
  case Nil
  assume "coalesced st"
  with Nil show ?thesis by (simp add: renderFrame_def)
next
  case (Cons request rest)
  assume "coalesced st"
  with Cons have "rest = []"
    by (simp add: coalesced_def split: option.splits)
  then have "coalesced (snd (renderFrameCallback H I T ts (st\<lparr>frameRequests := rest\<rparr>)))"
    by (intro coalesced_renderFrameCallback) simp
  with Cons show ?thesis by (simp add: renderFrame_def)
qed

lemma coalesced_step: "coalesced st \<Longrightarrow> coalesced (step H I T a st)"
proof (cases a)
  case (Dispatch e n)
  assume "coalesced st"
  with Dispatch show ?thesis by (simp add: coalesced_processInputEvent)
next
  case (Frame ts)
  assume "coalesced st"
  with Frame show ?thesis by (simp add: coalesced_renderFrame)
next
  case Stop
  assume "coalesced st"
  with Stop show ?thesis using coalesced_frames [OF stop_frames [of H I T st]] by simp
qed

lemma coalesced_run: "coalesced st \<Longrightarrow> coalesced (run H I T acts st)"
  by (induction acts arbitrary: st) (simp_all add: coalesced_step)

lemma step_frames:
  "\<not> is_frame a \<Longrightarrow> \<exists>b. frames (step H I T a st) = frames (framed b st)"
proof (cases a)
  case (Dispatch e n)
  then show ?thesis using processInputEvent_frames [of H I T e n st] by simp
next
  case (Frame ts)
  assume "\<not> is_frame a"
  with Frame show ?thesis by simp
next
  case Stop
  then show ?thesis using stop_frames [of H I T st]
    by (intro exI [of _ False]) (simp add: framed_def)
qed

lemma run_frames:
  "list_all (\<lambda>a. \<not> is_frame a) acts \<Longrightarrow> \<exists>b. frames (run H I T acts st) = frames (framed b st)"
proof (induction acts arbitrary: st)
  case Nil
  show ?case by (intro exI [of _ False]) (simp add: framed_def)
next
  case (Cons a acts)
  then have a: "\<not> is_frame a" and acts: "list_all (\<lambda>a. \<not> is_frame a) acts" by simp_all
  from step_frames [OF a] obtain b1 where
    b1: "frames (step H I T a st) = frames (framed b1 st)" by blast
  from Cons.IH [OF acts, of "step H I T a st"] obtain b2 where
    "frames (run H I T acts (step H I T a st)) = frames (framed b2 (step H I T a st))" by blast
  also have "\<dots> = frames (framed b2 (framed b1 st))"
    using b1 by (rule frames_framed_cong)
  finally show ?case
    by (intro exI [of _ "b2 \<or> b1"]) (simp add: framed_framed)
qed

lemma framed_requests:
  "requests (framed b st) = requests st + (if b \<and> frameId st = None then 1 else 0)
   \<and> (frameId st \<noteq> None \<longrightarrow> frameId (framed b st) = frameId st)"
  by (simp add: framed_def triggerRenderFrame_def map_calls_def requests_def is_request_def)

text \<open>
  Claim C8. From a coalesced manager every run of dispatches, frame callbacks and stops
  ends in a coalesced manager: the map never holds more than one frame request, and the
  token is set exactly when it holds one. \<^verbatim>\<open>_triggerRenderFrame\<close> does nothing while the
  token is set and issues one request otherwise; when a frame callback has run the token
  is unset unless the callback issued a new request; and a run without frame callbacks
  issues at most one request, and none while the token is set.
\<close>

theorem frame_coalescing:
  assumes "coalesced st"
  shows "coalesced (run H I T acts st)
    \<and> length (frameRequests (run H I T acts st)) \<le> 1
    \<and> (frameId st \<noteq> None \<longrightarrow> triggerRenderFrame st = st)
    \<and> (frameId st = None \<longrightarrow>
         frameId (triggerRenderFrame st) = Some (nextFrameId st)
         \<and> frameRequests (triggerRenderFrame st) = [nextFrameId st]
         \<and> requests (triggerRenderFrame st) = requests st + 1)
    \<and> (frameRequests st \<noteq> [] \<longrightarrow>
         frameId (renderFrame H I T ts st) = None
         \<or> requests (renderFrame H I T ts st) = requests st + 1)
    \<and> (list_all (\<lambda>a. \<not> is_frame a) acts \<longrightarrow>
         requests (run H I T acts st) \<le> requests st + 1
         \<and> (frameId st \<noteq> None \<longrightarrow> requests (run H I T acts st) = requests st))"
proof -
  have inv: "coalesced (run H I T acts st)"
    using assms by (rule coalesced_run)
  then have one: "length (frameRequests (run H I T acts st)) \<le> 1"
    by (simp add: coalesced_def split: option.splits)
  have t1: "frameId st \<noteq> None \<longrightarrow> triggerRenderFrame st = st"
    by (simp add: triggerRenderFrame_def)
  have t2: "frameId st = None \<longrightarrow>
         frameId (triggerRenderFrame st) = Some (nextFrameId st)
         \<and> frameRequests (triggerRenderFrame st) = [nextFrameId st]
         \<and> requests (triggerRenderFrame st) = requests st + 1"
    using assms
    by (simp add: triggerRenderFrame_def map_calls_def requests_def is_request_def coalesced_def)
  have cb: "frameRequests st \<noteq> [] \<longrightarrow>
         frameId (renderFrame H I T ts st) = None
         \<or> requests (renderFrame H I T ts st) = requests st + 1"
  proof
    assume "frameRequests st \<noteq> []"
    then obtain request rest where r: "frameRequests st = request # rest"
      by (cases "frameRequests st") auto
    let ?st = "st\<lparr>frameRequests := rest, frameId := None\<rparr>"
    let ?e = "\<lparr>etype = ''renderFrame'', timeStamp = Some ts\<rparr>"
    obtain b where "frames (snd (processInputEvent H I T ?e None ?st)) = frames (framed b ?st)"
      using processInputEvent_frames by blast
    then have "frames (renderFrame H I T ts st) = frames (framed b ?st)"
      using r by (simp add: renderFrame_def renderFrameCallback_eq applyChanges_frames)
    moreover have "requests ?st = requests st"
      by (simp add: requests_def)
    ultimately show "frameId (renderFrame H I T ts st) = None
         \<or> requests (renderFrame H I T ts st) = requests st + 1"
      by (cases b) (auto simp: frames_def framed_def triggerRenderFrame_def map_calls_def
          requests_def is_request_def)
  qed
  have seq: "list_all (\<lambda>a. \<not> is_frame a) acts \<longrightarrow>
         requests (run H I T acts st) \<le> requests st + 1
         \<and> (frameId st \<noteq> None \<longrightarrow> requests (run H I T acts st) = requests st)"
  proof
    assume "list_all (\<lambda>a. \<not> is_frame a) acts"
    from run_frames [OF this] obtain b where
      "frames (run H I T acts st) = frames (framed b st)" by blast
    then have "requests (run H I T acts st) = requests (framed b st)"
      by (simp add: frames_def)
    with framed_requests [of b st] show "requests (run H I T acts st) \<le> requests st + 1
         \<and> (frameId st \<noteq> None \<longrightarrow> requests (run H I T acts st) = requests st)"
      by auto
  qed
  from inv one t1 t2 cb seq show ?thesis by blast
qed

lemmas dispatch_defs = processInputEvent_def afterDispatch_def dispatchTo_def invoke_def
  methodName_def mergeHandlerResult_def extend_result_def overwrite_def triggerRenderFrame_def
  add_key_def hasChange_def truthy_def truthy_flag_def mag_def empty_result_def map_calls_def
  Let_def

theorem frame_coalescing_witness:
  "coalesced example_manager
   \<and> coalesced (run example_handlers example_inertia example_transform
        (example_actions @ [Frame 4]) example_manager)
   \<and> frameRequests (run example_handlers example_inertia example_transform
        example_actions example_manager) = [0]
   \<and> requests (run example_handlers example_inertia example_transform
        example_actions example_manager) = 1
   \<and> coalesced busy_manager
   \<and> triggerRenderFrame busy_manager = busy_manager
   \<and> requests (run example_handlers example_inertia example_transform
        example_actions busy_manager) = 0
   \<and> (frameId (renderFrame example_handlers example_inertia example_transform 4 busy_manager) = None
        \<or> requests (renderFrame example_handlers example_inertia example_transform 4 busy_manager) = 1)"
proof -
  have c: "coalesced example_manager"
    by (simp add: coalesced_def example_manager_def)
  have n: "list_all (\<lambda>a. \<not> is_frame a) example_actions"
    by (simp add: example_actions_def)
  have r: "frameRequests (run example_handlers example_inertia example_transform
        example_actions example_manager) = [0]
      \<and> 0 < requests (run example_handlers example_inertia example_transform
        example_actions example_manager)"
    by (simp add: example_actions_def example_defs dispatch_defs requests_def is_request_def)
  have z: "requests example_manager = 0"
    by (simp add: requests_def example_manager_def)
  have cb: "coalesced busy_manager"
    by (simp add: coalesced_def busy_manager_def example_manager_def)
  have fb: "frameId busy_manager \<noteq> None" "frameRequests busy_manager \<noteq> []"
    "requests busy_manager = 0"
    by (simp_all add: requests_def busy_manager_def example_manager_def)
  from frame_coalescing [OF c, of example_handlers example_inertia example_transform
      "example_actions @ [Frame 4]" 4]
    frame_coalescing [OF c, of example_handlers example_inertia example_transform
      example_actions 4]
    frame_coalescing [OF cb, of example_handlers example_inertia example_transform
      example_actions 4] n r c z cb fb
  show ?thesis by simp
qed

subsection \<open>Stopping\<close>

lemma defaultHandlers_distinct: "distinct (map fst defaultHandlers)"
  by (simp add: defaultHandlers_def)















end
